theory Spec2Isabelle
  imports Complex_Main "HOL-Library.Log_Nat"
begin

section \<open>Python values used by compress.py\<close>

text \<open>
  The exceptions that the code and the libraries it calls can raise. All of them are
  subclasses of Python's \<open>Exception\<close>, which is what \<open>process_one\<close> catches.
\<close>

datatype error =
    ValueError
  | OverflowError
  | ZeroDivisionError
  | OSError
  | UnicodeEncodeError
  | Other string

definition bind_err :: "error + 'a \<Rightarrow> ('a \<Rightarrow> error + 'b) \<Rightarrow> error + 'b" where
  "bind_err m f = (case m of Inl e \<Rightarrow> Inl e | Inr x \<Rightarrow> f x)"

subsection \<open>Double-precision floats\<close>

text \<open>
  \<open>resize_by_width\<close> computes \<open>int(h * (target_w / float(w)))\<close> with Python floats, which
  are IEEE 754 binary64 numbers with round-to-nearest, ties-to-even. A finite float is
  modelled by the rational number it denotes; the two zeros are identified (the code never
  observes the sign of a zero: \<open>int(-0.0)\<close> is \<open>0\<close>).
\<close>

datatype pyfloat = Fin rat | PInf | NInf | NaN

definition round_half_even :: "rat \<Rightarrow> int" where
  "round_half_even x =
     (let n = \<lfloor>x\<rfloor>; d = x - of_int n
      in if d < 1 / 2 then n
         else if 1 / 2 < d then n + 1
         else if even n then n else n + 1)"

text \<open>\<open>ilog2 x\<close> is the binary exponent of a positive rational: \<open>2 ^ e \<le> x < 2 ^ (e + 1)\<close>.\<close>

definition ilog2 :: "rat \<Rightarrow> int" where
  "ilog2 x =
     (case quotient_of x of (p, q) \<Rightarrow>
        let e = bitlen p - bitlen q
        in if 2 powi e \<le> x then e else e - 1)"

text \<open>
  Rounding of a rational to the nearest number with a 53-bit significand, with the
  gradual underflow of binary64 (the unit in the last place never drops below
  \<open>2 ^ -1074\<close>). The exponent is not bounded above here: the callers test the result
  against \<open>dbl_max\<close>.
\<close>

definition round_double :: "rat \<Rightarrow> rat" where
  "round_double x =
     (if x = 0 then 0
      else let e = max (ilog2 \<bar>x\<bar>) (- 1022); u = 2 powi (e - 52)
           in of_int (round_half_even (x / u)) * u)"

definition dbl_max :: rat where
  "dbl_max = (2 ^ 53 - 1) * 2 ^ 971"

definition to_double :: "rat \<Rightarrow> pyfloat" where
  "to_double x =
     (let r = round_double x
      in if dbl_max < r then PInf else if r < - dbl_max then NInf else Fin r)"

text \<open>\<open>float(n)\<close> for a Python int, also the coercion of an int operand of \<open>/\<close> and \<open>*\<close>.\<close>

definition float_of_int :: "int \<Rightarrow> error + pyfloat" where
  "float_of_int n =
     (case to_double (of_int n) of
        Fin r \<Rightarrow> Inr (Fin r)
      | _ \<Rightarrow> Inl OverflowError)"

fun float_div :: "pyfloat \<Rightarrow> pyfloat \<Rightarrow> error + pyfloat" where
  "float_div a (Fin b) =
     (if b = 0 then Inl ZeroDivisionError
      else case a of
             Fin x \<Rightarrow> Inr (to_double (x / b))
           | PInf \<Rightarrow> Inr (if 0 < b then PInf else NInf)
           | NInf \<Rightarrow> Inr (if 0 < b then NInf else PInf)
           | NaN \<Rightarrow> Inr NaN)"
| "float_div (Fin x) PInf = Inr (Fin 0)"
| "float_div (Fin x) NInf = Inr (Fin 0)"
| "float_div a b = Inr NaN"

fun float_mul :: "pyfloat \<Rightarrow> pyfloat \<Rightarrow> pyfloat" where
  "float_mul (Fin a) (Fin b) = to_double (a * b)"
| "float_mul NaN b = NaN"
| "float_mul a NaN = NaN"
| "float_mul (Fin a) PInf = (if a = 0 then NaN else if 0 < a then PInf else NInf)"
| "float_mul (Fin a) NInf = (if a = 0 then NaN else if 0 < a then NInf else PInf)"
| "float_mul PInf (Fin b) = (if b = 0 then NaN else if 0 < b then PInf else NInf)"
| "float_mul NInf (Fin b) = (if b = 0 then NaN else if 0 < b then NInf else PInf)"
| "float_mul PInf PInf = PInf"
| "float_mul PInf NInf = NInf"
| "float_mul NInf PInf = NInf"
| "float_mul NInf NInf = PInf"

text \<open>\<open>int(x)\<close> for a float: truncation toward zero; infinities and NaN raise.\<close>

fun py_int :: "pyfloat \<Rightarrow> error + int" where
  "py_int (Fin x) = Inr (if 0 \<le> x then \<lfloor>x\<rfloor> else \<lceil>x\<rceil>)"
| "py_int PInf = Inl OverflowError"
| "py_int NInf = Inl OverflowError"
| "py_int NaN = Inl ValueError"

section \<open>Images\<close>

text \<open>
  A decoded image: its mode string, its size \<open>(width, height)\<close>, its raster as returned by
  \<open>getdata()\<close>, and the \<open>info\<close> dictionary in which the decoder leaves the metadata of the
  container (orientation, colour profile, text chunks).
\<close>

record 'px image =
  mode :: string
  isize :: "nat \<times> nat"
  pixels :: "'px list"
  info :: "(string \<times> string) list"

text \<open>
  The imaging library is not part of the repository. Its pixel arithmetic enters the model
  as parameters: \<open>convert_data\<close> is the colour conversion of a raster between two modes
  (it can raise for a pair of modes the library does not convert), \<open>resample\<close> the Lanczos
  filter that produces the raster of a resized image. What the library documents about
  the mode, size and \<open>info\<close> of its results is written out in \<open>convert\<close>,
  \<open>new_image\<close> and \<open>resize\<close> below.
\<close>

record 'px imaging =
  convert_data :: "string \<Rightarrow> string \<Rightarrow> 'px list \<Rightarrow> error + 'px list"
  resample :: "'px image \<Rightarrow> nat \<times> nat \<Rightarrow> 'px list"

definition convert :: "'px imaging \<Rightarrow> 'px image \<Rightarrow> string \<Rightarrow> error + 'px image" where
  "convert lib img m =
     bind_err (convert_data lib (mode img) m (pixels img))
       (\<lambda>d. Inr (img\<lparr>mode := m, pixels := d\<rparr>))"

text \<open>\<open>Image.new(mode, size)\<close> followed by \<open>putdata(data)\<close>: a fresh image, empty \<open>info\<close>.\<close>

definition new_image :: "string \<Rightarrow> nat \<times> nat \<Rightarrow> 'px list \<Rightarrow> 'px image" where
  "new_image m sz d = \<lparr>mode = m, isize = sz, pixels = d, info = []\<rparr>"

text \<open>
  \<open>img.resize((xsize, ysize), Image.LANCZOS)\<close>: the library refuses a requested width or
  height below 1 with a ValueError, and otherwise returns an image of exactly the
  requested size in the same mode.
\<close>

definition resize :: "'px imaging \<Rightarrow> 'px image \<Rightarrow> int \<times> int \<Rightarrow> error + 'px image" where
  "resize lib img sz =
     (case sz of (xsize, ysize) \<Rightarrow>
        if xsize < 1 \<or> ysize < 1 then Inl ValueError
        else Inr (img\<lparr>isize := (nat xsize, nat ysize),
                       pixels := resample lib img (nat xsize, nat ysize)\<rparr>))"

text \<open>
  The library's \<open>has_transparency_data\<close>: the mode has an alpha channel, or the
  decoder recorded a transparent colour in \<open>info\<close>.
\<close>

definition has_transparency :: "'px image \<Rightarrow> bool" where
  "has_transparency img =
     (mode img \<in> set [''LA'', ''La'', ''PA'', ''RGBA'', ''RGBa'']
      \<or> ''transparency'' \<in> set (map fst (info img)))"

section \<open>compress.py\<close>

subsection \<open>strip_exif\<close>

definition strip_exif :: "'px imaging \<Rightarrow> 'px image \<Rightarrow> error + 'px image" where
  "strip_exif lib img =
     bind_err (if mode img \<notin> set [''RGB'', ''RGBA''] then convert lib img ''RGB'' else Inr img)
       (\<lambda>img'. let data = pixels img'
               in Inr (new_image (mode img') (isize img') data))"

subsection \<open>resize_by_width\<close>

text \<open>The expression \<open>int(h * ratio)\<close> with \<open>ratio = target_w / float(w)\<close>.\<close>

definition scaled_height :: "nat \<Rightarrow> nat \<Rightarrow> int \<Rightarrow> error + int" where
  "scaled_height w h target_w =
     bind_err (float_of_int (int w)) (\<lambda>fw.
     bind_err (float_of_int target_w) (\<lambda>ft.
     bind_err (float_div ft fw) (\<lambda>ratio.
     bind_err (float_of_int (int h)) (\<lambda>fh.
     py_int (float_mul fh ratio)))))"

definition resize_by_width :: "'px imaging \<Rightarrow> 'px image \<Rightarrow> int \<Rightarrow> error + 'px image" where
  "resize_by_width lib img target_w =
     (case isize img of (w, h) \<Rightarrow>
        if int w \<le> target_w then Inr img
        else bind_err (scaled_height w h target_w)
               (\<lambda>new_h. resize lib img (target_w, new_h)))"


subsection \<open>Paths\<close>

text \<open>
  A \<open>pathlib\<close> path is the list of its components: \<open>Path("images")\<close> is
  \<open>[''images'']\<close>, \<open>a / b\<close> is \<open>a @ b\<close>. File names are byte strings, and \<open>lower\<close>
  acts on the ASCII letters.
\<close>

type_synonym path = "string list"

definition rfind :: "char \<Rightarrow> string \<Rightarrow> int" where
  "rfind c s =
     (if c \<in> set s then int (length s) - 1 - int (length (takeWhile (\<lambda>d. d \<noteq> c) (rev s)))
      else - 1)"

definition path_name :: "path \<Rightarrow> string" where
  "path_name p = (if p = [] then [] else last p)"

definition parent :: "path \<Rightarrow> path" where
  "parent p = butlast p"

definition suffix :: "path \<Rightarrow> string" where
  "suffix p =
     (let name = path_name p; i = rfind CHR ''.'' name
      in if 0 < i \<and> i < int (length name) - 1 then drop (nat i) name else [])"

definition stem :: "path \<Rightarrow> string" where
  "stem p = (let name = path_name p in take (length name - length (suffix p)) name)"

definition with_suffix :: "path \<Rightarrow> string \<Rightarrow> error + path" where
  "with_suffix p sfx =
     (if CHR ''/'' \<in> set sfx \<or> (sfx \<noteq> [] \<and> hd sfx \<noteq> CHR ''.'') \<or> sfx = ''.''
      then Inl ValueError
      else let name = path_name p
           in if name = [] then Inl ValueError
              else let old_suffix = suffix p;
                       name' = (if old_suffix = [] then name @ sfx
                                else take (length name - length old_suffix) name @ sfx)
                   in Inr (butlast p @ [name']))"

definition relative_to :: "path \<Rightarrow> path \<Rightarrow> error + path" where
  "relative_to p other =
     (if take (length other) p = other then Inr (drop (length other) p) else Inl ValueError)"

definition lower_char :: "char \<Rightarrow> char" where
  "lower_char c =
     (let n = (of_char c :: nat) in if 65 \<le> n \<and> n \<le> 90 then char_of (n + 32) else c)"

definition lower :: "string \<Rightarrow> string" where
  "lower s = map lower_char s"

subsection \<open>Configuration\<close>

text \<open>
  The module constants. They are fields of a record so that the two toggles can be
  stated about; \<open>default_config\<close> holds the values of the source.
\<close>

record config =
  SRC_DIR :: path
  OUT_DIR :: path
  MAX_WIDTH_HI :: int
  THUMB_WIDTH :: int
  JPEG_QUALITY :: int
  WEBP_QUALITY :: int
  MAKE_WEBP :: bool
  STRIP_EXIF :: bool

definition THUMB_DIR :: "config \<Rightarrow> path" where
  "THUMB_DIR cfg = OUT_DIR cfg @ [''thumbs'']"

definition SUPPORTED :: "string list" where
  "SUPPORTED = [''.jpg'', ''.jpeg'', ''.png'']"

definition default_config :: config where
  "default_config =
     \<lparr>SRC_DIR = [''images''], OUT_DIR = [''images_optimized''],
      MAX_WIDTH_HI = 1600, THUMB_WIDTH = 400, JPEG_QUALITY = 85, WEBP_QUALITY = 80,
      MAKE_WEBP = True, STRIP_EXIF = True\<rparr>"

subsection \<open>The file system and the console\<close>

datatype fmt = JPEG | WEBP

record 'px artifact =
  a_format :: fmt
  a_quality :: int
  a_params :: "(string \<times> string) list"
  a_image :: "'px image"

datatype notice =
    Skipping path
  | Done path path bool
  | Failed path error

text \<open>
  What a run changes: the directories created, the files written (in the order of the
  writes) and the lines printed.
\<close>

record 'px world =
  dirs :: "path list"
  files :: "(path \<times> 'px artifact) list"
  console :: "notice list"

text \<open>
  What a run reads from its surroundings: the size and the decoded content of the source
  files, the directory listing of \<open>os.walk\<close>, whether creating a directory or writing a
  file fails, whether the console refuses a line (\<open>print\<close> raises UnicodeEncodeError
  when the encoding of the standard output has no code for a character of the line, and
  every notice starts with an emoji and names the source), and the imaging library.
\<close>

record 'px system =
  stat_size :: "path \<Rightarrow> error + nat"
  image_open :: "path \<Rightarrow> error + 'px image"
  mkdir_error :: "path \<Rightarrow> error option"
  save_error :: "path \<Rightarrow> 'px artifact \<Rightarrow> error option"
  print_error :: "notice \<Rightarrow> error option"
  walk :: "path \<Rightarrow> (path \<times> string list) list"
  lib :: "'px imaging"

text \<open>A statement either raises or returns, and leaves a world behind in both cases.\<close>

type_synonym ('px, 'a) io = "'px world \<Rightarrow> (error + 'a) \<times> 'px world"

definition io_return :: "'a \<Rightarrow> ('px, 'a) io" where
  "io_return x = (\<lambda>w. (Inr x, w))"

definition io_lift :: "error + 'a \<Rightarrow> ('px, 'a) io" where
  "io_lift r = (\<lambda>w. (r, w))"

definition io_bind :: "('px, 'a) io \<Rightarrow> ('a \<Rightarrow> ('px, 'b) io) \<Rightarrow> ('px, 'b) io" where
  "io_bind m f = (\<lambda>w. case m w of (Inl e, w') \<Rightarrow> (Inl e, w') | (Inr x, w') \<Rightarrow> f x w')"

definition try_except :: "('px, 'a) io \<Rightarrow> (error \<Rightarrow> ('px, 'a) io) \<Rightarrow> ('px, 'a) io" where
  "try_except m handler =
     (\<lambda>w. case m w of (Inl e, w') \<Rightarrow> handler e w' | (Inr x, w') \<Rightarrow> (Inr x, w'))"

primrec for_each :: "'a list \<Rightarrow> ('a \<Rightarrow> ('px, unit) io) \<Rightarrow> ('px, unit) io" where
  "for_each [] f = io_return ()"
| "for_each (x # xs) f = io_bind (f x) (\<lambda>_. for_each xs f)"

text \<open>\<open>print(line)\<close>: the line reaches the console, or the call raises.\<close>

definition print :: "'px system \<Rightarrow> notice \<Rightarrow> ('px, unit) io" where
  "print sys n =
     (\<lambda>w. case print_error sys n of
             Some e \<Rightarrow> (Inl e, w)
           | None \<Rightarrow> (Inr (), w\<lparr>console := console w @ [n]\<rparr>))"

text \<open>\<open>p.mkdir(parents=True, exist_ok=True)\<close>\<close>

definition mkdir :: "'px system \<Rightarrow> path \<Rightarrow> ('px, unit) io" where
  "mkdir sys p =
     (\<lambda>w. case mkdir_error sys p of
             Some e \<Rightarrow> (Inl e, w)
           | None \<Rightarrow> (Inr (), w\<lparr>dirs := dirs w @ [p]\<rparr>))"

text \<open>\<open>img.save(path, **params)\<close>\<close>

definition save :: "'px system \<Rightarrow> path \<Rightarrow> 'px artifact \<Rightarrow> ('px, unit) io" where
  "save sys p a =
     (\<lambda>w. case save_error sys p a of
             Some e \<Rightarrow> (Inl e, w)
           | None \<Rightarrow> (Inr (), w\<lparr>files := files w @ [(p, a)]\<rparr>))"

subsection \<open>ensure_dirs, save_jpeg, save_webp\<close>

definition ensure_dirs :: "config \<Rightarrow> 'px system \<Rightarrow> ('px, unit) io" where
  "ensure_dirs cfg sys = io_bind (mkdir sys (OUT_DIR cfg)) (\<lambda>_. mkdir sys (THUMB_DIR cfg))"

text \<open>The file that \<open>save_jpeg\<close> and \<open>save_webp\<close> ask the encoder for.\<close>

definition jpeg_file :: "'px image \<Rightarrow> int \<Rightarrow> 'px artifact" where
  "jpeg_file img quality =
     \<lparr>a_format = JPEG, a_quality = quality,
      a_params = [(''optimize'', ''True''), (''progressive'', ''True''),
                  (''subsampling'', ''4:2:0'')],
      a_image = img\<rparr>"

definition webp_file :: "'px image \<Rightarrow> int \<Rightarrow> 'px artifact" where
  "webp_file img quality =
     \<lparr>a_format = WEBP, a_quality = quality, a_params = [(''method'', ''6'')],
      a_image = img\<rparr>"

definition save_jpeg :: "'px system \<Rightarrow> 'px image \<Rightarrow> path \<Rightarrow> int \<Rightarrow> ('px, unit) io" where
  "save_jpeg sys img p quality = save sys p (jpeg_file img quality)"

definition save_webp :: "'px system \<Rightarrow> 'px image \<Rightarrow> path \<Rightarrow> int \<Rightarrow> ('px, unit) io" where
  "save_webp sys img p quality = save sys p (webp_file img quality)"

subsection \<open>process_one\<close>

text \<open>
  Lines 61 to 64: the three output paths \<open>(out_hi, out_webp, out_thumb)\<close> of a source.
\<close>

definition out_paths :: "config \<Rightarrow> path \<Rightarrow> error + path \<times> path \<times> path" where
  "out_paths cfg src =
     bind_err (relative_to src (SRC_DIR cfg)) (\<lambda>rel.
     bind_err (with_suffix rel ''.jpg'') (\<lambda>hi.
     bind_err (with_suffix rel ''.webp'') (\<lambda>webp.
     bind_err (with_suffix rel ''.jpg'') (\<lambda>thumb.
     Inr (OUT_DIR cfg @ hi, OUT_DIR cfg @ webp, THUMB_DIR cfg @ thumb)))))"

text \<open>Lines 72 to 77: normalise the mode, stripping the metadata when configured.\<close>

definition normalize :: "config \<Rightarrow> 'px imaging \<Rightarrow> 'px image \<Rightarrow> error + 'px image" where
  "normalize cfg l img =
     (if STRIP_EXIF cfg then strip_exif l img
      else if mode img \<notin> set [''RGB'', ''RGBA''] then convert l img ''RGB''
      else Inr img)"

text \<open>The body of the \<open>try\<close> statement.\<close>

definition process_one_body :: "config \<Rightarrow> 'px system \<Rightarrow> path \<Rightarrow> ('px, unit) io" where
  "process_one_body cfg sys src =
     (if lower (suffix src) \<notin> set SUPPORTED then io_return ()
      else io_bind (io_lift (stat_size sys src)) (\<lambda>st_size.
        if st_size = 0 then print sys (Skipping src)
        else io_bind (io_lift (out_paths cfg src)) (\<lambda>(out_hi, out_webp, out_thumb).
             io_bind (mkdir sys (parent out_hi)) (\<lambda>_.
             io_bind (mkdir sys (parent out_thumb)) (\<lambda>_.
             io_bind (io_lift (image_open sys src)) (\<lambda>img0.
             io_bind (io_lift (normalize cfg (lib sys) img0)) (\<lambda>img.
             io_bind (io_lift (resize_by_width (lib sys) img (MAX_WIDTH_HI cfg))) (\<lambda>hi.
             io_bind (save_jpeg sys hi out_hi (JPEG_QUALITY cfg)) (\<lambda>_.
             io_bind (io_lift (resize_by_width (lib sys) img (THUMB_WIDTH cfg))) (\<lambda>thumb.
             io_bind (save_jpeg sys thumb out_thumb 70) (\<lambda>_.
             io_bind (if MAKE_WEBP cfg then save_webp sys hi out_webp (WEBP_QUALITY cfg)
                      else io_return ()) (\<lambda>_.
             print sys (Done src out_hi (MAKE_WEBP cfg))))))))))))))"

definition process_one :: "config \<Rightarrow> 'px system \<Rightarrow> path \<Rightarrow> ('px, unit) io" where
  "process_one cfg sys src =
     try_except (process_one_body cfg sys src) (\<lambda>e. print sys (Failed src e))"

subsection \<open>main\<close>

definition main :: "config \<Rightarrow> 'px system \<Rightarrow> ('px, unit) io" where
  "main cfg sys =
     io_bind (ensure_dirs cfg sys) (\<lambda>_.
     for_each (walk sys (SRC_DIR cfg)) (\<lambda>(root, fs).
       for_each fs (\<lambda>f. process_one cfg sys (root @ [f]))))"

text \<open>The paths \<open>Path(root) / f\<close> that the two loops of \<open>main\<close> visit, in order.\<close>

definition walked_files :: "config \<Rightarrow> 'px system \<Rightarrow> path list" where
  "walked_files cfg sys =
     concat (map (\<lambda>(root, fs). map (\<lambda>f. root @ [f]) fs) (walk sys (SRC_DIR cfg)))"

subsection \<open>What a step wrote\<close>

text \<open>The files written between an earlier world and a later one.\<close>

definition new_files :: "'px world \<Rightarrow> 'px world \<Rightarrow> (path \<times> 'px artifact) list" where
  "new_files w w' = drop (length (files w)) (files w')"

subsection \<open>Sample inputs\<close>

text \<open>
  An imaging library whose colour conversion is the identity and whose resampling
  returns an empty raster, and an image of a given mode and size that carries an
  orientation tag. They serve as concrete inputs below.
\<close>

definition plain_lib :: "nat imaging" where
  "plain_lib = \<lparr>convert_data = (\<lambda>_ _ d. Inr d), resample = (\<lambda>_ _. [])\<rparr>"

definition blank_image :: "string \<Rightarrow> nat \<Rightarrow> nat \<Rightarrow> nat image" where
  "blank_image m w h =
     \<lparr>mode = m, isize = (w, h), pixels = [], info = [(''exif'', ''Orientation=6'')]\<rparr>"

text \<open>
  A source tree with five files: a wide photograph, a small one, a file that does not
  decode, an empty file and a file of another kind. Writing the thumbnail of
  \<open>half.jpg\<close> fails. The console takes every line.
\<close>

definition sample_system :: "nat system" where
  "sample_system =
     \<lparr>stat_size = (\<lambda>p. if p = [''images'', ''empty.jpeg''] then Inr 0 else Inr 1024),
      image_open = (\<lambda>p.
        if p = [''images'', ''bad.jpg''] then Inl (Other ''image file is truncated'')
        else if p = [''images'', ''b'', ''wide.jpg''] then Inr (blank_image ''RGB'' 3000 1000)
        else Inr (blank_image ''L'' 320 200)),
      mkdir_error = (\<lambda>_. None),
      save_error = (\<lambda>p a.
        if p = [''images_optimized'', ''thumbs'', ''half.jpg''] then Some OSError else None),
      print_error = (\<lambda>_. None),
      walk = (\<lambda>d.
        [(d, [''bad.jpg'', ''half.JPG'', ''empty.jpeg'', ''notes.gif'']),
         (d @ [''b''], [''wide.jpg''])]),
      lib = plain_lib\<rparr>"

text \<open>
  The same tree on a console whose encoding has no code for the emoji of the notices
  (cp1252, the default of a Windows console): every \<open>print\<close> of the program raises.
\<close>

definition legacy_console_system :: "nat system" where
  "legacy_console_system = sample_system\<lparr>print_error := (\<lambda>_. Some UnicodeEncodeError)\<rparr>"

definition empty_world :: "nat world" where
  "empty_world = \<lparr>dirs = [], files = [], console = []\<rparr>"

section \<open>Properties of the float arithmetic\<close>

text \<open>The exponent found by \<open>ilog2\<close> brackets its argument, and is the only one that does.\<close>

lemma bitlen_powi_bounds:
  assumes "0 < p"
  shows "(2::rat) powi (bitlen p - 1) \<le> of_int p" and "of_int p < (2::rat) powi (bitlen p)"
proof -
  have b: "1 \<le> bitlen p" using assms bitlen_eq_zero_iff[of p] bitlen_nonneg[of p] by linarith
  have "(2::int) ^ nat (bitlen p - 1) \<le> p" using bitlen_bounds[OF assms] by simp
  then have "(of_int ((2::int) ^ nat (bitlen p - 1)) :: rat) \<le> of_int p"
    by (simp only: of_int_le_iff)
  then show "(2::rat) powi (bitlen p - 1) \<le> of_int p"
    using b by (simp add: power_int_nonneg_exp)
  have "p < (2::int) ^ nat (bitlen p)" using bitlen_bounds[OF assms] by simp
  then have "(of_int p :: rat) < of_int ((2::int) ^ nat (bitlen p))"
    by (simp only: of_int_less_iff)
  then show "of_int p < (2::rat) powi (bitlen p)"
    using b by (simp add: power_int_nonneg_exp)
qed

lemma ilog2_bounds:
  assumes "0 < x"
  shows "2 powi (ilog2 x) \<le> x" and "x < 2 powi (ilog2 x + 1)"
proof -
  obtain p q where pq: "quotient_of x = (p, q)" by force
  have q: "0 < q" using quotient_of_denom_pos[OF pq] .
  have x: "x = of_int p / of_int q" using quotient_of_div[OF pq] .
  have p: "0 < p" using assms q x by (simp add: zero_less_divide_iff)
  define bp where "bp = bitlen p"
  define bq where "bq = bitlen q"
  have P: "(2::rat) powi (bp - 1) \<le> of_int p" "of_int p < (2::rat) powi bp"
    using bitlen_powi_bounds[OF p] by (simp_all add: bp_def)
  have Q: "(2::rat) powi (bq - 1) \<le> of_int q" "of_int q < (2::rat) powi bq"
    using bitlen_powi_bounds[OF q] by (simp_all add: bq_def)
  have qr: "(0::rat) < of_int q" using q by simp
  have pr: "(0::rat) < of_int p" using p by simp
  have lo: "(2::rat) powi (bp - bq - 1) \<le> x"
  proof -
    have "(2::rat) powi (bp - bq - 1) = 2 powi ((bp - 1) - bq)"
      by (simp add: algebra_simps)
    also have "\<dots> = 2 powi (bp - 1) / 2 powi bq"
      by (rule power_int_diff) simp
    also have "\<dots> \<le> of_int p / 2 powi bq"
      using P(1) by (simp add: divide_right_mono)
    also have "\<dots> \<le> of_int p / of_int q"
      using Q(2) pr qr by (simp add: frac_le)
    finally show ?thesis by (simp add: x)
  qed
  have hi: "x < (2::rat) powi (bp - bq + 1)"
  proof -
    have "x = of_int p / of_int q" by (rule x)
    also have "\<dots> < 2 powi bp / of_int q"
      using P(2) qr by (simp add: divide_strict_right_mono)
    also have "\<dots> \<le> 2 powi bp / 2 powi (bq - 1)"
      using Q(1) by (simp add: frac_le)
    also have "\<dots> = 2 powi (bp - (bq - 1))"
      by (rule power_int_diff [symmetric]) simp
    also have "\<dots> = 2 powi (bp - bq + 1)"
      by (simp add: algebra_simps)
    finally show ?thesis .
  qed
  have d: "ilog2 x = (if 2 powi (bp - bq) \<le> x then bp - bq else bp - bq - 1)"
    by (simp add: ilog2_def pq bp_def bq_def Let_def)
  show "2 powi (ilog2 x) \<le> x" using lo by (simp add: d)
  show "x < 2 powi (ilog2 x + 1)" using hi by (auto simp add: d not_le)
qed

lemma powi2_less_D: "(2::rat) powi a < 2 powi b \<Longrightarrow> a < b"
  using power_int_increasing [of b a "2::rat"] by (cases "a < b") simp_all

lemma ilog2_unique:
  assumes "2 powi e \<le> x" "x < 2 powi (e + 1)"
  shows "ilog2 x = e"
proof -
  have x: "0 < x" using assms(1) zero_less_power_int[of "2::rat" e] by linarith
  note b = ilog2_bounds[OF x]
  have "(2::rat) powi e < 2 powi (ilog2 x + 1)" using assms(1) b(2) by linarith
  then have 1: "e < ilog2 x + 1" by (rule powi2_less_D)
  have "(2::rat) powi (ilog2 x) < 2 powi (e + 1)" using assms(2) b(1) by linarith
  then have 2: "ilog2 x < e + 1" by (rule powi2_less_D)
  show ?thesis using 1 2 by linarith
qed

lemma round_half_even_bounds:
  "of_int (round_half_even y) \<le> y + 1 / 2" "y - 1 / 2 \<le> of_int (round_half_even y)"
  unfolding round_half_even_def Let_def
  by (auto simp: ) linarith+

lemma round_half_even_of_int: "round_half_even (of_int n) = n"
  by (simp add: round_half_even_def)


lemma round_double_bounds:
  assumes "2 powi (- 1022) \<le> x"
  shows "x * (1 - 1 / 2 ^ 53) \<le> round_double x" and "round_double x \<le> x * (1 + 1 / 2 ^ 53)"
proof -
  have x: "0 < x" using assms zero_less_power_int[of "2::rat" "- 1022"] by linarith
  define e where "e = ilog2 x"
  note b = ilog2_bounds[OF x, folded e_def]
  have "(2::rat) powi (- 1022) < 2 powi (e + 1)" using assms b(2) by linarith
  then have e: "- 1022 \<le> e" using powi2_less_D[of "- 1022" "e + 1"] by linarith
  define u where "u = (2::rat) powi (e - 52)"
  have u: "0 < u" by (simp add: u_def)
  have rd: "round_double x = of_int (round_half_even (x / u)) * u"
    using x e by (simp add: round_double_def Let_def e_def[symmetric] u_def max_def)
  have "u = 2 powi e / 2 powi 52" unfolding u_def by (rule power_int_diff) simp
  then have u2: "u / 2 = 2 powi e / 2 ^ 53" by simp
  have half: "u / 2 \<le> x / 2 ^ 53" unfolding u2 using b(1) by (simp add: divide_right_mono)
  have "of_int (round_half_even (x / u)) * u \<le> (x / u + 1 / 2) * u"
    using round_half_even_bounds(1)[of "x / u"] u by (simp only: mult_right_mono less_imp_le)
  also have "\<dots> = x + u / 2" using u by (simp add: field_simps)
  also have "\<dots> \<le> x + x / 2 ^ 53" using half by simp
  finally show "round_double x \<le> x * (1 + 1 / 2 ^ 53)" by (simp add: rd algebra_simps)
  have "x - x / 2 ^ 53 \<le> x - u / 2" using half by simp
  also have "\<dots> = (x / u - 1 / 2) * u" using u by (simp add: field_simps)
  also have "\<dots> \<le> of_int (round_half_even (x / u)) * u"
    using round_half_even_bounds(2)[of "x / u"] u by (simp only: mult_right_mono less_imp_le)
  finally show "x * (1 - 1 / 2 ^ 53) \<le> round_double x" by (simp add: rd algebra_simps)
qed

lemma round_double_of_int:
  assumes "\<bar>n\<bar> < 2 ^ 53"
  shows "round_double (of_int n) = of_int n"
proof (cases "n = 0")
  case True
  then show ?thesis by (simp add: round_double_def)
next
  case False
  define x :: rat where "x = \<bar>of_int n\<bar>"
  have x1: "1 \<le> x" using False by (simp add: x_def flip: of_int_abs)
  have x2: "x < 2 ^ 53" using assms unfolding x_def
    by (metis of_int_abs of_int_less_iff of_int_numeral of_int_power)
  define e where "e = ilog2 x"
  have xpos: "0 < x" using x1 by linarith
  note b = ilog2_bounds[OF xpos, folded e_def]
  have "(2::rat) powi 0 < 2 powi (e + 1)" using x1 b(2) by simp
  then have e0: "0 \<le> e" using powi2_less_D[of 0 "e + 1"] by linarith
  have "(2::rat) powi e < 2 powi 53" using x2 b(1) by simp
  then have e52: "e \<le> 52" using powi2_less_D[of e 53] by linarith
  define k where "k = nat (52 - e)"
  have u: "(2::rat) powi (e - 52) = 1 / 2 ^ k"
  proof -
    have "(2::rat) powi (e - 52) = 2 powi (- int k)" using e52 by (simp add: k_def)
    also have "\<dots> = 1 / 2 ^ k" by (simp add: power_int_minus_divide)
    finally show ?thesis .
  qed
  have q: "of_int n / (1 / 2 ^ k) = (of_int (n * 2 ^ k) :: rat)" by simp
  have "round_double (of_int n) = of_int (round_half_even (of_int n / (1 / 2 ^ k))) * (1 / 2 ^ k)"
    using False e0 by (simp add: round_double_def Let_def x_def[symmetric] e_def[symmetric] u max_def)
  also have "\<dots> = of_int (n * 2 ^ k) * (1 / 2 ^ k)"
    unfolding q round_half_even_of_int ..
  also have "\<dots> = of_int n" by simp
  finally show ?thesis .
qed

lemma dbl_max_ge: "2 ^ 55 \<le> dbl_max"
proof -
  have "(2::rat) ^ 55 \<le> 2 ^ 971" by (rule power_increasing) simp_all
  also have "\<dots> = 1 * 2 ^ 971" by simp
  also have "\<dots> \<le> (2 ^ 53 - 1) * 2 ^ 971" by (rule mult_right_mono) simp_all
  finally show ?thesis by (simp only: dbl_max_def)
qed

lemma to_double_Fin:
  assumes "\<bar>round_double x\<bar> \<le> 2 ^ 55"
  shows "to_double x = Fin (round_double x)"
proof -
  have "\<not> dbl_max < round_double x" "\<not> round_double x < - dbl_max"
    using assms dbl_max_ge by linarith+
  then show ?thesis by (simp add: to_double_def Let_def)
qed

lemma float_of_int_exact:
  assumes "\<bar>n\<bar> < 2 ^ 53"
  shows "float_of_int n = Inr (Fin (of_int n))"
proof -
  have "\<bar>of_int n :: rat\<bar> < 2 ^ 53" using assms
    by (metis of_int_abs of_int_less_iff of_int_numeral of_int_power)
  then have "\<bar>round_double (of_int n)\<bar> \<le> 2 ^ 55"
    unfolding round_double_of_int[OF assms] by simp
  from to_double_Fin[OF this] show ?thesis
    by (simp add: float_of_int_def round_double_of_int[OF assms])
qed


lemma scaled_height_bounds:
  assumes t: "0 < t" "t < int w" and w: "w < 2 ^ 53" and h: "h < 2 ^ 53"
  shows "\<exists>k. scaled_height w h t = Inr k \<and> 0 \<le> k
           \<and> (of_int k :: rat) \<le> (of_nat h * of_int t / of_nat w) * (1 + 1 / 2 ^ 53) ^ 2
           \<and> (of_nat h * of_int t / of_nat w) * (1 - 1 / 2 ^ 53) ^ 2 < (of_int k + 1 :: rat)"
proof -
  define a :: rat where "a = 1 - 1 / 2 ^ 53"
  define b :: rat where "b = 1 + 1 / 2 ^ 53"
  have a: "0 < a" "1 / 2 \<le> a" and b: "0 < b" "b \<le> 2" by (simp_all add: a_def b_def)
  have wi: "\<bar>int w\<bar> < 2 ^ 53" using w by simp
  have ti: "\<bar>t\<bar> < 2 ^ 53" using t w by simp
  have hi: "\<bar>int h\<bar> < 2 ^ 53" using h by simp
  define x1 :: rat where "x1 = of_int t / of_nat w"
  have wpos: "(0::rat) < of_nat w" using t by simp
  have wlt: "(of_nat w :: rat) < 2 ^ 53" using w
    by (metis of_nat_less_iff of_nat_numeral of_nat_power)
  have x1pos: "0 < x1" using t wpos by (simp add: x1_def)
  have x1le: "x1 \<le> 1" using t wpos unfolding x1_def
    by (simp add: divide_le_eq_1)
  have "1 / 2 ^ 53 \<le> 1 / (of_nat w :: rat)" using wlt wpos by (simp add: frac_le)
  also have "\<dots> \<le> x1" unfolding x1_def using t wpos by (simp add: divide_right_mono)
  finally have x1lo: "1 / 2 ^ 53 \<le> x1" .
  have "(2::rat) powi (- 1022) \<le> 2 powi (- 53)" by (rule power_int_increasing) simp_all
  also have "\<dots> = 1 / 2 ^ 53" by (simp add: power_int_minus_divide)
  finally have n1: "2 powi (- 1022) \<le> x1" using x1lo by linarith
  define r1 where "r1 = round_double x1"
  have r1: "x1 * a \<le> r1" "r1 \<le> x1 * b"
    using round_double_bounds[OF n1] by (simp_all add: r1_def a_def b_def)
  have "x1 * b \<le> 1 * 2" using x1le b x1pos by (intro mult_mono) simp_all
  then have r1le: "r1 \<le> 2" using r1(2) by linarith
  have "1 / 2 ^ 53 * (1 / 2) \<le> x1 * a" using x1lo a by (intro mult_mono) simp_all
  then have r1lo: "1 / 2 ^ 54 \<le> r1" using r1(1) by simp
  have r1pos: "0 < r1" using r1lo by (rule less_le_trans[rotated]) simp
  have ratio: "float_div (Fin (of_int t)) (Fin (of_int (int w))) = Inr (Fin r1)"
    using wpos r1le r1pos to_double_Fin[of x1] by (simp add: x1_def r1_def)
  define X :: rat where "X = of_nat h * of_int t / of_nat w"
  have X: "X = of_nat h * x1" by (simp add: X_def x1_def)
  have sh: "scaled_height w h t = py_int (float_mul (Fin (of_int (int h))) (Fin r1))"
    by (simp only: scaled_height_def float_of_int_exact[OF wi] float_of_int_exact[OF ti]
        float_of_int_exact[OF hi] ratio bind_err_def sum.case)
  show ?thesis
  proof (cases "h = 0")
    case True
    have "to_double 0 = Fin 0" using to_double_Fin[of 0] by (simp add: round_double_def)
    then have "scaled_height w h t = Inr 0" unfolding sh using True by simp
    then show ?thesis using True by simp
  next
    case False
    define x2 where "x2 = of_nat h * r1"
    have h1: "(1::rat) \<le> of_nat h" using False by simp
    have hlt: "(of_nat h :: rat) < 2 ^ 53" using h
      by (metis of_nat_less_iff of_nat_numeral of_nat_power)
    have "1 * r1 \<le> x2" unfolding x2_def using h1 r1pos by (intro mult_right_mono) simp_all
    then have x2lo: "1 / 2 ^ 54 \<le> x2" using r1lo by simp
    have "(2::rat) powi (- 1022) \<le> 2 powi (- 54)" by (rule power_int_increasing) simp_all
    also have "\<dots> = 1 / 2 ^ 54" by (simp add: power_int_minus_divide)
    finally have n2: "2 powi (- 1022) \<le> x2" using x2lo by linarith
    define r2 where "r2 = round_double x2"
    have r2: "x2 * a \<le> r2" "r2 \<le> x2 * b"
      using round_double_bounds[OF n2] by (simp_all add: r2_def a_def b_def)
    have "x2 \<le> 2 ^ 53 * 2" unfolding x2_def using hlt r1le r1pos by (intro mult_mono) simp_all
    then have "x2 * b \<le> (2 ^ 53 * 2) * 2" using b by (intro mult_mono) simp_all
    then have r2le: "r2 \<le> 2 ^ 55" using r2(2) by simp
    have "0 \<le> x2 * a" using x2lo a by simp
    then have r2pos: "0 \<le> r2" using r2(1) by linarith
    have prod: "float_mul (Fin (of_int (int h))) (Fin r1) = Fin r2"
      using r2le r2pos to_double_Fin[of x2] by (simp add: x2_def r2_def)
    have sh: "scaled_height w h t = Inr \<lfloor>r2\<rfloor>"
      unfolding sh prod using r2pos by simp
    have "x2 \<le> of_nat h * (x1 * b)" unfolding x2_def using r1(2) by (intro mult_left_mono) simp_all
    then have "x2 * b \<le> (of_nat h * (x1 * b)) * b" using b by (intro mult_right_mono) simp_all
    then have up: "r2 \<le> X * b ^ 2" using r2(2) by (simp add: X power2_eq_square algebra_simps)
    have "of_nat h * (x1 * a) \<le> x2" unfolding x2_def using r1(1) by (intro mult_left_mono) simp_all
    then have "(of_nat h * (x1 * a)) * a \<le> x2 * a" using a by (intro mult_right_mono) simp_all
    then have lo: "X * a ^ 2 \<le> r2" using r2(1) by (simp add: X power2_eq_square algebra_simps)
    have k1: "of_int \<lfloor>r2\<rfloor> \<le> r2" by simp
    have k2: "r2 < of_int \<lfloor>r2\<rfloor> + 1" by linarith
    have k0: "0 \<le> \<lfloor>r2\<rfloor>" using r2pos by simp
    show ?thesis
      using sh k0 k1 k2 up lo unfolding X_def a_def b_def
      by (intro exI[of _ "\<lfloor>r2\<rfloor>"] conjI) linarith+
  qed
qed

section \<open>Properties of resize_by_width\<close>

lemma resize_by_width_unchanged:
  "int (fst (isize img)) \<le> t \<Longrightarrow> resize_by_width l img t = Inr img"
  by (cases "isize img") (simp add: resize_by_width_def)

lemma resize_by_width_width:
  assumes "resize_by_width l img t = Inr r"
  shows "int (fst (isize r)) \<le> t" and "int (fst (isize img)) \<le> t \<Longrightarrow> r = img"
  using assms
  by (auto simp: resize_by_width_def resize_def bind_err_def split: prod.splits if_splits sum.splits)

lemma resize_by_width_twice:
  "bind_err (resize_by_width l img t) (\<lambda>r. resize_by_width l r t) = resize_by_width l img t"
proof (cases "resize_by_width l img t")
  case (Inl e)
  then show ?thesis by (simp add: bind_err_def)
next
  case (Inr r)
  from resize_by_width_width(1)[OF Inr] have "resize_by_width l r t = Inr r"
    by (rule resize_by_width_unchanged)
  with Inr show ?thesis by (simp add: bind_err_def)
qed

lemma scaled_height_target_0:
  assumes "0 < w" "w < 2 ^ 53" "h < 2 ^ 53"
  shows "scaled_height w h 0 = Inr 0"
proof -
  have wi: "\<bar>int w\<bar> < 2 ^ 53" using assms by simp
  have hi: "\<bar>int h\<bar> < 2 ^ 53" using assms by simp
  have z: "to_double 0 = Fin 0" using to_double_Fin[of 0] by (simp add: round_double_def)
  have f0: "float_of_int 0 = Inr (Fin 0)" using float_of_int_exact[of 0] by simp
  show ?thesis
    using assms(1)
    by (simp add: scaled_height_def float_of_int_exact[OF wi] float_of_int_exact[OF hi] f0
        bind_err_def z)
qed

lemma scaled_height_zero:
  assumes "0 \<le> t" "t < int w" "int h * t < int w" "w < 2 ^ 31" "h < 2 ^ 31"
  shows "scaled_height w h t = Inr 0"
proof (cases "t = 0")
  case True
  then show ?thesis using assms scaled_height_target_0[of w h] by simp
next
  case False
  then have t: "0 < t" using assms by simp
  have w53: "w < 2 ^ 53" using assms(4) by (rule less_trans) simp
  have h53: "h < 2 ^ 53" using assms(5) by (rule less_trans) simp
  define X :: rat where "X = of_nat h * of_int t / of_nat w"
  from scaled_height_bounds[OF t assms(2) w53 h53]
  obtain k where k: "scaled_height w h t = Inr k" "0 \<le> k"
    "(of_int k :: rat) \<le> X * (1 + 1 / 2 ^ 53) ^ 2"
    unfolding X_def by blast
  have wpos: "(0::rat) < of_nat w" using assms(1,2) by simp
  have wlt: "(of_nat w :: rat) \<le> 2 ^ 31" using assms(4)
    by (metis less_imp_le of_nat_le_iff of_nat_numeral of_nat_power)
  have "int h * t \<le> int w - 1" using assms(3) by simp
  then have "(of_int (int h * t) :: rat) \<le> of_int (int w - 1)" by (simp only: of_int_le_iff)
  then have "(of_nat h * of_int t :: rat) \<le> of_nat w - 1" by simp
  then have "X \<le> (of_nat w - 1) / of_nat w" unfolding X_def using wpos
    by (simp add: divide_right_mono)
  also have "\<dots> = 1 - 1 / of_nat w" using wpos by (simp add: field_simps)
  also have "\<dots> \<le> 1 - 1 / 2 ^ 31" using wlt wpos by (simp add: frac_le)
  finally have X1: "X \<le> 1 - 1 / 2 ^ 31" .
  have "X * (1 + 1 / 2 ^ 53) ^ 2 \<le> (1 - 1 / 2 ^ 31) * (1 + 1 / 2 ^ 53) ^ 2"
    using X1 by (intro mult_right_mono) simp_all
  also have "\<dots> < 1" by (simp add: power2_eq_square)
  finally have "(of_int k :: rat) < 1" using k(3) by linarith
  then have "k < 1" by simp
  with k(1,2) show ?thesis by simp
qed

lemma scaled_height_cat: "scaled_height 1200 800 400 = Inr 266"
proof -
  from scaled_height_bounds[of 400 1200 800]
  obtain k where k: "scaled_height 1200 800 400 = Inr k"
    "(of_int k :: rat) \<le> (of_nat 800 * of_int 400 / of_nat 1200) * (1 + 1 / 2 ^ 53) ^ 2"
    "(of_nat 800 * of_int 400 / of_nat 1200) * (1 - 1 / 2 ^ 53) ^ 2 < (of_int k + 1 :: rat)"
    by auto
  have "(of_int k :: rat) < 267" using k(2) by (simp add: power2_eq_square)
  then have 1: "k < 267" by simp
  have "(266 :: rat) < of_int k + 1" using k(3) by (simp add: power2_eq_square)
  then have "(of_int 266 :: rat) < of_int (k + 1)" by simp
  then have 2: "266 < k + 1" by (simp only: of_int_less_iff)
  from 1 2 have "k = 266" by simp
  with k(1) show ?thesis by simp
qed

text \<open>
  Claim C2, as the code has it. For an image at most \<open>2 ^ 31\<close> pixels wide and high (the
  sizes the imaging library can hold) that is wider than a positive target \<open>t\<close>, the new
  height \<open>k\<close> is \<open>int(h * (t / w))\<close>: the double-precision product truncated toward
  zero, not rounded. It is at most \<open>x * (1 + 2^-53)^2\<close> and more than
  \<open>x * (1 - 2^-53)^2 - 1\<close> for the exact quotient \<open>x = h * t / w\<close>. When \<open>k\<close> is at
  least 1 the result has exactly the target width and the height \<open>k\<close>; when \<open>k\<close> is 0
  the library refuses the size.
\<close>

theorem resize_by_width_height:
  assumes "isize img = (w, h)" and "0 < t" and "t < int w" and "w < 2 ^ 31" and "h < 2 ^ 31"
  shows "\<exists>k. scaled_height w h t = Inr k \<and> 0 \<le> k
           \<and> (of_int k :: rat) \<le> (of_nat h * of_int t / of_nat w) * (1 + 1 / 2 ^ 53) ^ 2
           \<and> (of_nat h * of_int t / of_nat w) * (1 - 1 / 2 ^ 53) ^ 2 < (of_int k + 1 :: rat)
           \<and> resize_by_width l img t =
               (if k < 1 then Inl ValueError
                else Inr (img\<lparr>isize := (nat t, nat k),
                               pixels := resample l img (nat t, nat k)\<rparr>))"
proof -
  have w53: "w < 2 ^ 53" using assms(4) by (rule less_trans) simp
  have h53: "h < 2 ^ 53" using assms(5) by (rule less_trans) simp
  from scaled_height_bounds[OF assms(2,3) w53 h53]
  obtain k where k: "scaled_height w h t = Inr k" "0 \<le> k"
    "(of_int k :: rat) \<le> (of_nat h * of_int t / of_nat w) * (1 + 1 / 2 ^ 53) ^ 2"
    "(of_nat h * of_int t / of_nat w) * (1 - 1 / 2 ^ 53) ^ 2 < (of_int k + 1 :: rat)"
    by blast
  have "resize_by_width l img t =
               (if k < 1 then Inl ValueError
                else Inr (img\<lparr>isize := (nat t, nat k),
                               pixels := resample l img (nat t, nat k)\<rparr>))"
    using assms(1,2,3) k(1) by (simp add: resize_by_width_def bind_err_def resize_def)
  with k show ?thesis by blast
qed

text \<open>The source of 1200 by 800 pixels, resized to the width 400, is 400 by 266.\<close>

theorem resize_by_width_height_witness:
  "isize (blank_image ''RGB'' 1200 800) = (1200, 800) \<and> (0::int) < 400 \<and> (400::int) < int 1200
   \<and> (1200::nat) < 2 ^ 31 \<and> (800::nat) < 2 ^ 31
   \<and> resize_by_width plain_lib (blank_image ''RGB'' 1200 800) 400 =
       Inr ((blank_image ''RGB'' 1200 800)\<lparr>isize := (400, 266),
             pixels := resample plain_lib (blank_image ''RGB'' 1200 800) (400, 266)\<rparr>)"
proof -
  have s: "isize (blank_image ''RGB'' 1200 800) = (1200, 800)" by (simp add: blank_image_def)
  from resize_by_width_height[OF s, of 400 plain_lib]
  obtain k where k: "scaled_height 1200 800 400 = Inr k"
    "resize_by_width plain_lib (blank_image ''RGB'' 1200 800) 400 =
               (if k < 1 then Inl ValueError
                else Inr ((blank_image ''RGB'' 1200 800)\<lparr>isize := (nat 400, nat k),
                       pixels := resample plain_lib (blank_image ''RGB'' 1200 800) (nat 400, nat k)\<rparr>))"
    by auto
  from k(1) have "k = 266" by (simp add: scaled_height_cat)
  with k(2) s show ?thesis by simp
qed

text \<open>
  Claim C2 as the specification states it asks for the rounded height, 267 for a source
  of 1200 by 800 pixels at the width 400. The code produces 266.
\<close>

theorem resize_by_width_rounding_counterexample:
  "map_sum id isize (resize_by_width plain_lib (blank_image ''RGB'' 1200 800) 400) = Inr (400, 266)
   \<and> round (800 * (400 / 1200) :: rat) = 267"
proof -
  have "resize_by_width plain_lib (blank_image ''RGB'' 1200 800) 400 =
      Inr ((blank_image ''RGB'' 1200 800)\<lparr>isize := (400, 266),
             pixels := resample plain_lib (blank_image ''RGB'' 1200 800) (400, 266)\<rparr>)"
    by (simp add: resize_by_width_def blank_image_def scaled_height_cat bind_err_def resize_def)
  moreover have "round (800 * (400 / 1200) :: rat) = 267"
    unfolding round_def by (rule floor_unique) simp_all
  ultimately show ?thesis by simp
qed

text \<open>
  Claim C9: resizing twice to the same target width is the same as resizing once, for every
  image and every target width (in particular every positive one). An error of the first
  resize is the result of both sides.
\<close>

theorem resize_by_width_idempotent:
  "bind_err (resize_by_width l img t) (\<lambda>r. resize_by_width l r t) = resize_by_width l img t"
  by (rule resize_by_width_twice)

text \<open>
  Claim C10: for an image (at most \<open>2 ^ 31\<close> pixels wide and high) whose width \<open>w\<close>
  exceeds the target width \<open>t \<ge> 0\<close> and whose height \<open>h\<close> satisfies \<open>h * t < w\<close>, the
  computed new height \<open>int(h * (t / w))\<close> is 0. The resize then has no image to return: the
  library refuses the height 0.
\<close>

theorem resize_by_width_zero_height:
  assumes "isize img = (w, h)" and "0 \<le> t" and "t < int w" and "int h * t < int w"
    and "w < 2 ^ 31" and "h < 2 ^ 31"
  shows "scaled_height w h t = Inr 0 \<and> resize_by_width l img t = Inl ValueError"
proof -
  have z: "scaled_height w h t = Inr 0" using assms(2-6) by (rule scaled_height_zero)
  then show ?thesis using assms(1,3)
    by (simp add: resize_by_width_def bind_err_def resize_def)
qed

theorem resize_by_width_zero_height_witness:
  "isize (blank_image ''RGB'' 30 5) = (30, 5) \<and> (0::int) \<le> 4 \<and> (4::int) < int 30
   \<and> int 5 * 4 < int 30 \<and> (30::nat) < 2 ^ 31 \<and> (5::nat) < 2 ^ 31
   \<and> scaled_height 30 5 4 = Inr 0
   \<and> resize_by_width plain_lib (blank_image ''RGB'' 30 5) 4 = Inl ValueError"
proof -
  have s: "isize (blank_image ''RGB'' 30 5) = (30, 5)" by (simp add: blank_image_def)
  from resize_by_width_zero_height[OF s, of 4 plain_lib] s show ?thesis by simp
qed

section \<open>Properties of process_one and main\<close>

lemma process_one_skip_unsupported:
  "lower (suffix src) \<notin> set SUPPORTED \<Longrightarrow> process_one cfg sys src w = (Inr (), w)"
  by (simp add: process_one_def process_one_body_def try_except_def io_return_def)

lemma process_one_skip_empty:
  "lower (suffix src) \<in> set SUPPORTED \<Longrightarrow> stat_size sys src = Inr 0 \<Longrightarrow>
   print_error sys (Skipping src) = None \<Longrightarrow>
   process_one cfg sys src w = (Inr (), w\<lparr>console := console w @ [Skipping src]\<rparr>)"
  by (simp add: process_one_def process_one_body_def try_except_def io_bind_def io_lift_def
      print_def)


lemmas io_defs = io_bind_def io_lift_def io_return_def print_def mkdir_def save_def
  save_jpeg_def save_webp_def

lemma process_one_body_cases [consumes 1, case_names none hi thumb webp]:
  assumes "process_one_body cfg sys src w = (r, w')"
  obtains
    (none) "files w' = files w"
  | (hi) oh ow ot img0 img hi where
      "out_paths cfg src = Inr (oh, ow, ot)" "image_open sys src = Inr img0"
      "normalize cfg (lib sys) img0 = Inr img"
      "resize_by_width (lib sys) img (MAX_WIDTH_HI cfg) = Inr hi"
      "files w' = files w @ [(oh, jpeg_file hi (JPEG_QUALITY cfg))]"
  | (thumb) oh ow ot img0 img hi thumb where
      "out_paths cfg src = Inr (oh, ow, ot)" "image_open sys src = Inr img0"
      "normalize cfg (lib sys) img0 = Inr img"
      "resize_by_width (lib sys) img (MAX_WIDTH_HI cfg) = Inr hi"
      "resize_by_width (lib sys) img (THUMB_WIDTH cfg) = Inr thumb"
      "files w' = files w @ [(oh, jpeg_file hi (JPEG_QUALITY cfg)), (ot, jpeg_file thumb 70)]"
  | (webp) oh ow ot img0 img hi thumb where
      "out_paths cfg src = Inr (oh, ow, ot)" "image_open sys src = Inr img0"
      "normalize cfg (lib sys) img0 = Inr img"
      "resize_by_width (lib sys) img (MAX_WIDTH_HI cfg) = Inr hi"
      "resize_by_width (lib sys) img (THUMB_WIDTH cfg) = Inr thumb"
      "MAKE_WEBP cfg"
      "files w' = files w @ [(oh, jpeg_file hi (JPEG_QUALITY cfg)), (ot, jpeg_file thumb 70),
                             (ow, webp_file hi (WEBP_QUALITY cfg))]"
  using assms unfolding process_one_body_def io_defs
  by (auto split: if_splits sum.splits prod.splits option.splits)

lemma process_one_eq:
  "process_one cfg sys src w =
     (case process_one_body cfg sys src w of
        (Inl e, w1) \<Rightarrow>
          (case print_error sys (Failed src e) of
             Some e' \<Rightarrow> (Inl e', w1)
           | None \<Rightarrow> (Inr (), w1\<lparr>console := console w1 @ [Failed src e]\<rparr>))
      | (Inr x, w1) \<Rightarrow> (Inr x, w1))"
  by (simp add: process_one_def try_except_def print_def)

text \<open>On a console that takes every line, \<open>process_one\<close> returns normally.\<close>

lemma process_one_returns:
  "(\<And>n. print_error sys n = None) \<Longrightarrow> fst (process_one cfg sys src w) = Inr ()"
  by (simp add: process_one_eq split: prod.splits sum.splits)

lemma process_one_files:
  "files (snd (process_one cfg sys src w)) = files (snd (process_one_body cfg sys src w))"
  by (simp add: process_one_eq split: prod.splits sum.splits option.splits)

lemma process_one_body_extends:
  assumes "process_one_body cfg sys src w = (r, w1)"
  shows "\<exists>new. files w1 = files w @ new"
  using assms by (cases rule: process_one_body_cases) simp_all

lemma for_each_total:
  assumes "\<And>x w. fst (f x w) = Inr ()"
  shows "for_each xs f w = (Inr (), foldl (\<lambda>w x. snd (f x w)) w xs)"
proof (induction xs arbitrary: w)
  case Nil
  show ?case by (simp add: io_return_def)
next
  case (Cons x xs)
  obtain w1 where "f x w = (Inr (), w1)" using assms[of x w] by (cases "f x w") auto
  then show ?case using Cons.IH[of w1] by (simp add: io_bind_def)
qed

lemma foldl_concat_map:
  "foldl g w (concat (map h xs)) = foldl (\<lambda>w x. foldl g w (h x)) w xs"
  by (induction xs arbitrary: w) simp_all

lemma main_runs_all:
  assumes "ensure_dirs cfg sys w0 = (Inr (), w1)" and quiet: "\<And>n. print_error sys n = None"
  shows "main cfg sys w0 =
           (Inr (), foldl (\<lambda>w p. snd (process_one cfg sys p w)) w1 (walked_files cfg sys))"
proof -
  let ?inner = "\<lambda>(root, fs). for_each fs (\<lambda>f. process_one cfg sys (root @ [f]))"
  have inner: "?inner rf w =
      (Inr (), foldl (\<lambda>w p. snd (process_one cfg sys p w)) w
                 ((\<lambda>(root, fs). map (\<lambda>f. root @ [f]) fs) rf))" for rf w
  proof (cases rf)
    case (Pair root fs)
    have "for_each fs (\<lambda>f. process_one cfg sys (root @ [f])) w =
        (Inr (), foldl (\<lambda>w f. snd (process_one cfg sys (root @ [f]) w)) w fs)"
      by (rule for_each_total) (rule process_one_returns, rule quiet)
    then show ?thesis using Pair by (simp add: foldl_map)
  qed
  have "for_each (walk sys (SRC_DIR cfg)) ?inner w1 =
      (Inr (), foldl (\<lambda>w rf. snd (?inner rf w)) w1 (walk sys (SRC_DIR cfg)))"
    by (rule for_each_total) (simp add: inner)
  also have "(\<lambda>w rf. snd (?inner rf w)) =
      (\<lambda>w rf. foldl (\<lambda>w p. snd (process_one cfg sys p w)) w
                 ((\<lambda>(root, fs). map (\<lambda>f. root @ [f]) fs) rf))"
    by (simp add: inner)
  finally show ?thesis using assms(1)
    by (simp add: main_def io_bind_def walked_files_def foldl_concat_map)
qed

lemma with_suffix_length: "with_suffix p s = Inr q \<Longrightarrow> length q = length p"
  by (auto simp: with_suffix_def path_name_def Let_def split: if_splits)

lemma out_paths_lengths:
  assumes "out_paths cfg src = Inr (oh, ow, ot)"
  shows "length ot = Suc (length oh)" and "length ow = length oh"
  using assms
  by (auto simp: out_paths_def bind_err_def THUMB_DIR_def split: sum.splits
      dest!: with_suffix_length)

lemma normalize_isize: "normalize cfg l img0 = Inr img \<Longrightarrow> isize img = isize img0"
  by (auto simp: normalize_def strip_exif_def convert_def new_image_def bind_err_def Let_def
      split: if_splits sum.splits)

lemma new_files_append: "files w' = files w @ new \<Longrightarrow> new_files w w' = new"
  by (simp add: new_files_def)

lemma process_one_cases [consumes 1, case_names none hi thumb webp]:
  assumes "process_one cfg sys src w = (r, w')"
  obtains
    (none) "new_files w w' = []"
  | (hi) oh ow ot img0 img hi where
      "out_paths cfg src = Inr (oh, ow, ot)" "image_open sys src = Inr img0"
      "normalize cfg (lib sys) img0 = Inr img"
      "resize_by_width (lib sys) img (MAX_WIDTH_HI cfg) = Inr hi"
      "new_files w w' = [(oh, jpeg_file hi (JPEG_QUALITY cfg))]"
  | (thumb) oh ow ot img0 img hi thumb where
      "out_paths cfg src = Inr (oh, ow, ot)" "image_open sys src = Inr img0"
      "normalize cfg (lib sys) img0 = Inr img"
      "resize_by_width (lib sys) img (MAX_WIDTH_HI cfg) = Inr hi"
      "resize_by_width (lib sys) img (THUMB_WIDTH cfg) = Inr thumb"
      "new_files w w' = [(oh, jpeg_file hi (JPEG_QUALITY cfg)), (ot, jpeg_file thumb 70)]"
  | (webp) oh ow ot img0 img hi thumb where
      "out_paths cfg src = Inr (oh, ow, ot)" "image_open sys src = Inr img0"
      "normalize cfg (lib sys) img0 = Inr img"
      "resize_by_width (lib sys) img (MAX_WIDTH_HI cfg) = Inr hi"
      "resize_by_width (lib sys) img (THUMB_WIDTH cfg) = Inr thumb"
      "MAKE_WEBP cfg"
      "new_files w w' = [(oh, jpeg_file hi (JPEG_QUALITY cfg)), (ot, jpeg_file thumb 70),
                         (ow, webp_file hi (WEBP_QUALITY cfg))]"
proof -
  obtain r1 w1 where body: "process_one_body cfg sys src w = (r1, w1)"
    by (cases "process_one_body cfg sys src w") auto
  have f: "files w' = files w1"
    using process_one_files[of cfg sys src w] assms body by simp
  from body show thesis
  proof (cases rule: process_one_body_cases)
    case none
    then show ?thesis using f that(1) by (simp add: new_files_def)
  next
    case (hi oh ow ot img0 img hi)
    then show ?thesis using f that(2) by (simp add: new_files_append)
  next
    case (thumb oh ow ot img0 img hi thumb)
    then show ?thesis using f that(3) by (simp add: new_files_append)
  next
    case (webp oh ow ot img0 img hi thumb)
    then show ?thesis using f that(4) by (simp add: new_files_append)
  qed
qed

lemma hi_width:
  assumes "normalize cfg l img0 = Inr img" "resize_by_width l img t = Inr hi"
  shows "int (fst (isize hi)) \<le> t \<and> (int (fst (isize img0)) \<le> t \<longrightarrow> fst (isize hi) = fst (isize img0))"
  using resize_by_width_width[OF assms(2)] normalize_isize[OF assms(1)] by auto

text \<open>
  Claim C1: the width-capped resize returns an image unchanged when its width is at most
  the target. Consequently every file that \<open>process_one\<close> writes at the hi-res path of
  a source holds an image at most \<open>MAX_WIDTH_HI\<close> (1600) wide, of the width of the decoded
  source when that is at most 1600; and every file written at the thumbnail path holds an
  image at most \<open>THUMB_WIDTH\<close> (400) wide, of the width of the source when that is at
  most 400.
\<close>

theorem widths_capped:
  assumes "process_one cfg sys src w = (r, w')"
    and "image_open sys src = Inr img0"
    and "out_paths cfg src = Inr (out_hi, out_webp, out_thumb)"
  shows "(int (fst (isize img)) \<le> t \<longrightarrow> resize_by_width l img t = Inr img)
    \<and> (\<forall>a. (out_hi, a) \<in> set (new_files w w') \<longrightarrow>
          int (fst (isize (a_image a))) \<le> MAX_WIDTH_HI cfg
          \<and> (int (fst (isize img0)) \<le> MAX_WIDTH_HI cfg \<longrightarrow>
               fst (isize (a_image a)) = fst (isize img0)))
    \<and> (\<forall>a. (out_thumb, a) \<in> set (new_files w w') \<longrightarrow>
          int (fst (isize (a_image a))) \<le> THUMB_WIDTH cfg
          \<and> (int (fst (isize img0)) \<le> THUMB_WIDTH cfg \<longrightarrow>
               fst (isize (a_image a)) = fst (isize img0)))
    \<and> MAX_WIDTH_HI default_config = 1600 \<and> THUMB_WIDTH default_config = 400"
proof -
  have 1: "int (fst (isize img)) \<le> t \<longrightarrow> resize_by_width l img t = Inr img"
    by (simp add: resize_by_width_unchanged)
  have ne: "out_hi \<noteq> out_thumb" "out_webp \<noteq> out_thumb"
    using out_paths_lengths[OF assms(3)] by auto
  have 2: "(\<forall>a. (out_hi, a) \<in> set (new_files w w') \<longrightarrow>
          int (fst (isize (a_image a))) \<le> MAX_WIDTH_HI cfg
          \<and> (int (fst (isize img0)) \<le> MAX_WIDTH_HI cfg \<longrightarrow>
               fst (isize (a_image a)) = fst (isize img0)))
    \<and> (\<forall>a. (out_thumb, a) \<in> set (new_files w w') \<longrightarrow>
          int (fst (isize (a_image a))) \<le> THUMB_WIDTH cfg
          \<and> (int (fst (isize img0)) \<le> THUMB_WIDTH cfg \<longrightarrow>
               fst (isize (a_image a)) = fst (isize img0)))"
    using assms(1)
  proof (cases rule: process_one_cases)
    case none
    then show ?thesis by simp
  next
    case (hi oh ow ot img0' img hi)
    then show ?thesis using assms(2,3) ne hi_width[of cfg "lib sys" img0 img]
      by (auto simp: jpeg_file_def)
  next
    case (thumb oh ow ot img0' img hi thumb)
    then show ?thesis using assms(2,3) ne hi_width[of cfg "lib sys" img0 img]
      by (auto simp: jpeg_file_def)
  next
    case (webp oh ow ot img0' img hi thumb)
    then show ?thesis using assms(2,3) ne hi_width[of cfg "lib sys" img0 img]
      by (auto simp: jpeg_file_def webp_file_def)
  qed
  show ?thesis using 1 2 by (simp add: default_config_def)
qed

text \<open>
  Claim C7: \<open>process_one\<close> writes no WebP file when \<open>MAKE_WEBP\<close> is off; a WebP file
  that it writes is at the \<open>.webp\<close> path of the source and encodes the very image that
  was written as the hi-res JPEG (so the two have the same pixel dimensions); and it
  writes at most one WebP file per source, so there is no WebP thumbnail.
\<close>

theorem webp_from_hi_res_only:
  assumes "process_one cfg sys src w = (r, w')"
  shows "(\<not> MAKE_WEBP cfg \<longrightarrow> (\<forall>(p, a) \<in> set (new_files w w'). a_format a \<noteq> WEBP))
    \<and> (\<forall>p a. (p, a) \<in> set (new_files w w') \<and> a_format a = WEBP \<longrightarrow>
          (\<exists>out_hi out_thumb hi.
              out_paths cfg src = Inr (out_hi, p, out_thumb)
            \<and> a = webp_file hi (WEBP_QUALITY cfg)
            \<and> (out_hi, jpeg_file hi (JPEG_QUALITY cfg)) \<in> set (new_files w w')))
    \<and> length (filter (\<lambda>(p, a). a_format a = WEBP) (new_files w w')) \<le> 1"
  using assms
proof (cases rule: process_one_cases)
  case none
  then show ?thesis by simp
next
  case (hi oh ow ot img0 img hi)
  then show ?thesis by (simp add: jpeg_file_def)
next
  case (thumb oh ow ot img0 img hi thumb)
  then show ?thesis by (auto simp: jpeg_file_def)
next
  case (webp oh ow ot img0 img hi thumb)
  then show ?thesis by (auto simp: jpeg_file_def webp_file_def)
qed

lemma default_config_sel:
  "SRC_DIR default_config = [''images'']" "OUT_DIR default_config = [''images_optimized'']"
  "MAX_WIDTH_HI default_config = 1600" "THUMB_WIDTH default_config = 400"
  "JPEG_QUALITY default_config = 85" "WEBP_QUALITY default_config = 80"
  "MAKE_WEBP default_config" "STRIP_EXIF default_config"
  by (simp_all add: default_config_def)

lemma sample_system_sel:
  "stat_size sample_system p = (if p = [''images'', ''empty.jpeg''] then Inr 0 else Inr 1024)"
  "image_open sample_system p =
     (if p = [''images'', ''bad.jpg''] then Inl (Other ''image file is truncated'')
      else if p = [''images'', ''b'', ''wide.jpg''] then Inr (blank_image ''RGB'' 3000 1000)
      else Inr (blank_image ''L'' 320 200))"
  "mkdir_error sample_system p = None"
  "save_error sample_system p a =
     (if p = [''images_optimized'', ''thumbs'', ''half.jpg''] then Some OSError else None)"
  "print_error sample_system n = None"
  "walk sample_system d =
     [(d, [''bad.jpg'', ''half.JPG'', ''empty.jpeg'', ''notes.gif'']),
      (d @ [''b''], [''wide.jpg''])]"
  "lib sample_system = plain_lib"
  by (simp_all add: sample_system_def)

lemma scaled_height_wide:
  "scaled_height 3000 1000 1600 = Inr 533" "scaled_height 3000 1000 400 = Inr 133"
proof -
  have *: "k = m" if "(of_int k :: rat) < of_int m + 1" "(of_int m :: rat) < of_int k + 1" for k m :: int
  proof -
    have "(of_int k :: rat) < of_int (m + 1)" "(of_int m :: rat) < of_int (k + 1)" using that by simp_all
    then have "k < m + 1" "m < k + 1" by (simp_all only: of_int_less_iff)
    then show ?thesis by simp
  qed
  from scaled_height_bounds[of 1600 3000 1000]
  obtain k where k: "scaled_height 3000 1000 1600 = Inr k"
    "(of_int k :: rat) \<le> (of_nat 1000 * of_int 1600 / of_nat 3000) * (1 + 1 / 2 ^ 53) ^ 2"
    "(of_nat 1000 * of_int 1600 / of_nat 3000) * (1 - 1 / 2 ^ 53) ^ 2 < (of_int k + 1 :: rat)"
    by auto
  have "k = 533" using k(2,3) by (intro *) (simp_all add: power2_eq_square)
  with k(1) show "scaled_height 3000 1000 1600 = Inr 533" by simp
  from scaled_height_bounds[of 400 3000 1000]
  obtain k where k: "scaled_height 3000 1000 400 = Inr k"
    "(of_int k :: rat) \<le> (of_nat 1000 * of_int 400 / of_nat 3000) * (1 + 1 / 2 ^ 53) ^ 2"
    "(of_nat 1000 * of_int 400 / of_nat 3000) * (1 - 1 / 2 ^ 53) ^ 2 < (of_int k + 1 :: rat)"
    by auto
  have "k = 133" using k(2,3) by (intro *) (simp_all add: power2_eq_square)
  with k(1) show "scaled_height 3000 1000 400 = Inr 133" by simp
qed

lemma sample_paths:
  "lower (suffix [''images'', ''bad.jpg'']) \<in> set SUPPORTED"
  "lower (suffix [''images'', ''half.JPG'']) \<in> set SUPPORTED"
  "lower (suffix [''images'', ''empty.jpeg'']) \<in> set SUPPORTED"
  "lower (suffix [''images'', ''notes.gif'']) \<notin> set SUPPORTED"
  "lower (suffix [''images'', ''b'', ''wide.jpg'']) \<in> set SUPPORTED"
  "out_paths default_config [''images'', ''bad.jpg''] =
     Inr ([''images_optimized'', ''bad.jpg''], [''images_optimized'', ''bad.webp''],
          [''images_optimized'', ''thumbs'', ''bad.jpg''])"
  "out_paths default_config [''images'', ''half.JPG''] =
     Inr ([''images_optimized'', ''half.jpg''], [''images_optimized'', ''half.webp''],
          [''images_optimized'', ''thumbs'', ''half.jpg''])"
  "out_paths default_config [''images'', ''b'', ''wide.jpg''] =
     Inr ([''images_optimized'', ''b'', ''wide.jpg''], [''images_optimized'', ''b'', ''wide.webp''],
          [''images_optimized'', ''thumbs'', ''b'', ''wide.jpg''])"
  by code_simp+

lemmas run_simps = process_one_eq process_one_body_def io_defs default_config_sel
  sample_system_sel sample_paths scaled_height_wide normalize_def strip_exif_def convert_def
  new_image_def resize_by_width_def resize_def bind_err_def parent_def plain_lib_def
  blank_image_def Let_def

lemma run_wide:
  "process_one default_config sample_system [''images'', ''b'', ''wide.jpg''] w =
    (Inr (),
     w\<lparr>dirs := dirs w @ [[''images_optimized'', ''b''], [''images_optimized'', ''thumbs'', ''b'']],
       files := files w @
        [([''images_optimized'', ''b'', ''wide.jpg''],
          jpeg_file \<lparr>mode = ''RGB'', isize = (1600, 533), pixels = [], info = []\<rparr> 85),
         ([''images_optimized'', ''thumbs'', ''b'', ''wide.jpg''],
          jpeg_file \<lparr>mode = ''RGB'', isize = (400, 133), pixels = [], info = []\<rparr> 70),
         ([''images_optimized'', ''b'', ''wide.webp''],
          webp_file \<lparr>mode = ''RGB'', isize = (1600, 533), pixels = [], info = []\<rparr> 80)],
       console := console w @
        [Done [''images'', ''b'', ''wide.jpg''] [''images_optimized'', ''b'', ''wide.jpg''] True]\<rparr>)"
  by (simp add: run_simps)

lemma run_half_body:
  "process_one_body default_config sample_system [''images'', ''half.JPG''] w =
    (Inl OSError,
     w\<lparr>dirs := dirs w @ [[''images_optimized''], [''images_optimized'', ''thumbs'']],
       files := files w @
        [([''images_optimized'', ''half.jpg''],
          jpeg_file \<lparr>mode = ''RGB'', isize = (320, 200), pixels = [], info = []\<rparr> 85)]\<rparr>)"
  by (simp add: run_simps)

lemma run_bad:
  "process_one default_config sample_system [''images'', ''bad.jpg''] w =
    (Inr (),
     w\<lparr>dirs := dirs w @ [[''images_optimized''], [''images_optimized'', ''thumbs'']],
       console := console w @ [Failed [''images'', ''bad.jpg''] (Other ''image file is truncated'')]\<rparr>)"
  by (simp add: run_simps)

lemma run_half:
  "process_one default_config sample_system [''images'', ''half.JPG''] w =
    (Inr (),
     w\<lparr>dirs := dirs w @ [[''images_optimized''], [''images_optimized'', ''thumbs'']],
       files := files w @
        [([''images_optimized'', ''half.jpg''],
          jpeg_file \<lparr>mode = ''RGB'', isize = (320, 200), pixels = [], info = []\<rparr> 85)],
       console := console w @ [Failed [''images'', ''half.JPG''] OSError]\<rparr>)"
  by (simp add: process_one_eq run_half_body sample_system_sel)

lemma run_empty:
  "process_one default_config sample_system [''images'', ''empty.jpeg''] w =
    (Inr (), w\<lparr>console := console w @ [Skipping [''images'', ''empty.jpeg'']]\<rparr>)"
  by (rule process_one_skip_empty) (simp_all add: sample_paths sample_system_sel)

lemma run_gif:
  "process_one default_config sample_system [''images'', ''notes.gif''] w = (Inr (), w)"
  by (rule process_one_skip_unsupported) (simp add: sample_paths)

lemma sample_walked:
  "walked_files default_config sample_system =
     [[''images'', ''bad.jpg''], [''images'', ''half.JPG''], [''images'', ''empty.jpeg''],
      [''images'', ''notes.gif''], [''images'', ''b'', ''wide.jpg'']]"
  by (simp add: walked_files_def sample_system_sel default_config_sel)

lemma sample_ensure_dirs:
  "ensure_dirs default_config sample_system w =
     (Inr (), w\<lparr>dirs := dirs w @ [[''images_optimized''], [''images_optimized'', ''thumbs'']]\<rparr>)"
  by (simp add: ensure_dirs_def io_defs sample_system_sel default_config_sel THUMB_DIR_def)

text \<open>
  Claim C3: for a path whose lower-cased suffix is not one of \<open>.jpg\<close>, \<open>.jpeg\<close>,
  \<open>.png\<close>, \<open>process_one\<close> returns with the world as it was: no file written, no
  directory created, nothing printed.
\<close>

theorem unsupported_extension_ignored:
  "lower (suffix src) \<notin> set SUPPORTED \<Longrightarrow> process_one cfg sys src w = (Inr (), w)"
  by (rule process_one_skip_unsupported)

theorem unsupported_extension_ignored_witness:
  "lower (suffix [''images'', ''notes.gif'']) \<notin> set SUPPORTED
   \<and> process_one default_config sample_system [''images'', ''notes.gif''] empty_world
       = (Inr (), empty_world)"
  using unsupported_extension_ignored[of "[''images'', ''notes.gif'']" default_config
      sample_system empty_world]
  by (simp add: sample_paths)



text \<open>
  On a console that takes every line, an exception of the body of the \<open>try\<close> is
  contained: \<open>process_one\<close> prints the failure notice naming the source and the error
  and keeps the world in which the exception was raised, whose files extend those present
  before; and once \<open>ensure_dirs\<close> has succeeded, \<open>main\<close> returns normally after
  calling \<open>process_one\<close> on every walked file in turn.
\<close>

lemma errors_contained_on_accepting_console:
  assumes quiet: "\<And>n. print_error sys n = None"
  shows "fst (process_one cfg sys src w) = Inr ()"
    and "process_one_body cfg sys src w = (Inl e, w1) \<Longrightarrow>
         process_one cfg sys src w = (Inr (), w1\<lparr>console := console w1 @ [Failed src e]\<rparr>)
         \<and> (\<exists>new. files w1 = files w @ new)"
    and "ensure_dirs cfg sys w0 = (Inr (), w2) \<Longrightarrow>
         main cfg sys w0 =
           (Inr (), foldl (\<lambda>w p. snd (process_one cfg sys p w)) w2 (walked_files cfg sys))"
proof -
  show "fst (process_one cfg sys src w) = Inr ()" by (rule process_one_returns) (rule quiet)
next
  assume b: "process_one_body cfg sys src w = (Inl e, w1)"
  then have "process_one cfg sys src w = (Inr (), w1\<lparr>console := console w1 @ [Failed src e]\<rparr>)"
    by (simp add: process_one_eq quiet)
  moreover have "\<exists>new. files w1 = files w @ new" using b by (rule process_one_body_extends)
  ultimately show "process_one cfg sys src w = (Inr (), w1\<lparr>console := console w1 @ [Failed src e]\<rparr>)
         \<and> (\<exists>new. files w1 = files w @ new)" by simp
next
  assume "ensure_dirs cfg sys w0 = (Inr (), w2)"
  then show "main cfg sys w0 =
           (Inr (), foldl (\<lambda>w p. snd (process_one cfg sys p w)) w2 (walked_files cfg sys))"
    by (rule main_runs_all) (rule quiet)
qed

text \<open>
  In the sample tree the thumbnail of \<open>half.JPG\<close> cannot be written: its hi-res file
  stays, a failure is printed, and the run goes on over the remaining files.
\<close>

lemma sample_run:
  "process_one_body default_config sample_system [''images'', ''half.JPG''] empty_world =
     (Inl OSError,
      \<lparr>dirs = [[''images_optimized''], [''images_optimized'', ''thumbs'']],
       files = [([''images_optimized'', ''half.jpg''],
          jpeg_file \<lparr>mode = ''RGB'', isize = (320, 200), pixels = [], info = []\<rparr> 85)],
       console = []\<rparr>)"
  "fst (main default_config sample_system empty_world) = Inr ()"
  "console (snd (main default_config sample_system empty_world)) =
       [Failed [''images'', ''bad.jpg''] (Other ''image file is truncated''),
        Failed [''images'', ''half.JPG''] OSError,
        Skipping [''images'', ''empty.jpeg''],
        Done [''images'', ''b'', ''wide.jpg''] [''images_optimized'', ''b'', ''wide.jpg''] True]"
  "map fst (files (snd (main default_config sample_system empty_world))) =
       [[''images_optimized'', ''half.jpg''], [''images_optimized'', ''b'', ''wide.jpg''],
        [''images_optimized'', ''thumbs'', ''b'', ''wide.jpg''],
        [''images_optimized'', ''b'', ''wide.webp'']]"
proof -
  have q: "\<And>n. print_error sample_system n = None" by (simp add: sample_system_sel)
  have m: "main default_config sample_system empty_world =
      (Inr (), foldl (\<lambda>w p. snd (process_one default_config sample_system p w))
         (empty_world\<lparr>dirs := dirs empty_world @
          [[''images_optimized''], [''images_optimized'', ''thumbs'']]\<rparr>)
         (walked_files default_config sample_system))"
    using sample_ensure_dirs[of empty_world] q by (rule main_runs_all)
  show "process_one_body default_config sample_system [''images'', ''half.JPG''] empty_world =
     (Inl OSError,
      \<lparr>dirs = [[''images_optimized''], [''images_optimized'', ''thumbs'']],
       files = [([''images_optimized'', ''half.jpg''],
          jpeg_file \<lparr>mode = ''RGB'', isize = (320, 200), pixels = [], info = []\<rparr> 85)],
       console = []\<rparr>)"
    by (simp add: run_half_body empty_world_def)
  show "fst (main default_config sample_system empty_world) = Inr ()" by (simp add: m)
  show "console (snd (main default_config sample_system empty_world)) =
       [Failed [''images'', ''bad.jpg''] (Other ''image file is truncated''),
        Failed [''images'', ''half.JPG''] OSError,
        Skipping [''images'', ''empty.jpeg''],
        Done [''images'', ''b'', ''wide.jpg''] [''images_optimized'', ''b'', ''wide.jpg''] True]"
    unfolding m sample_walked
    by (simp add: run_bad run_half run_empty run_gif run_wide empty_world_def)
  show "map fst (files (snd (main default_config sample_system empty_world))) =
       [[''images_optimized'', ''half.jpg''], [''images_optimized'', ''b'', ''wide.jpg''],
        [''images_optimized'', ''thumbs'', ''b'', ''wide.jpg''],
        [''images_optimized'', ''b'', ''wide.webp'']]"
    unfolding m sample_walked
    by (simp add: run_bad run_half run_empty run_gif run_wide empty_world_def)
qed

lemma legacy_console_sel:
  "stat_size legacy_console_system = stat_size sample_system"
  "image_open legacy_console_system = image_open sample_system"
  "mkdir_error legacy_console_system = mkdir_error sample_system"
  "save_error legacy_console_system = save_error sample_system"
  "walk legacy_console_system = walk sample_system"
  "lib legacy_console_system = lib sample_system"
  "print_error legacy_console_system n = Some UnicodeEncodeError"
  by (simp_all add: legacy_console_system_def)

text \<open>
  Claim C5 fails on the code. The handler of \<open>process_one\<close> prints the failure notice
  outside any \<open>try\<close>. On a console that cannot encode the notice, the decode error of
  \<open>bad.jpg\<close> is caught, the \<open>print\<close> of the handler raises UnicodeEncodeError,
  \<open>process_one\<close> raises it, and \<open>main\<close> stops there: no failure notice is printed
  and the files after \<open>bad.jpg\<close>, among them the valid \<open>b/wide.jpg\<close>, are never
  processed.
\<close>

theorem handler_print_aborts_batch:
  "process_one_body default_config legacy_console_system [''images'', ''bad.jpg'']
       \<lparr>dirs = [[''images_optimized''], [''images_optimized'', ''thumbs'']], files = [],
        console = []\<rparr> =
     (Inl (Other ''image file is truncated''),
      \<lparr>dirs = [[''images_optimized''], [''images_optimized'', ''thumbs''],
               [''images_optimized''], [''images_optimized'', ''thumbs'']],
       files = [], console = []\<rparr>)
   \<and> process_one default_config legacy_console_system [''images'', ''bad.jpg'']
       \<lparr>dirs = [[''images_optimized''], [''images_optimized'', ''thumbs'']], files = [],
        console = []\<rparr> =
     (Inl UnicodeEncodeError,
      \<lparr>dirs = [[''images_optimized''], [''images_optimized'', ''thumbs''],
               [''images_optimized''], [''images_optimized'', ''thumbs'']],
       files = [], console = []\<rparr>)
   \<and> walked_files default_config legacy_console_system =
       [[''images'', ''bad.jpg''], [''images'', ''half.JPG''], [''images'', ''empty.jpeg''],
        [''images'', ''notes.gif''], [''images'', ''b'', ''wide.jpg'']]
   \<and> main default_config legacy_console_system empty_world =
     (Inl UnicodeEncodeError,
      \<lparr>dirs = [[''images_optimized''], [''images_optimized'', ''thumbs''],
               [''images_optimized''], [''images_optimized'', ''thumbs'']],
       files = [], console = []\<rparr>)"
proof -
  let ?w = "\<lparr>dirs = [[''images_optimized''], [''images_optimized'', ''thumbs'']],
            files = [], console = []\<rparr> :: nat world"
  let ?w' = "\<lparr>dirs = [[''images_optimized''], [''images_optimized'', ''thumbs''],
               [''images_optimized''], [''images_optimized'', ''thumbs'']],
            files = [], console = []\<rparr> :: nat world"
  have body: "process_one_body default_config legacy_console_system [''images'', ''bad.jpg''] ?w =
      (Inl (Other ''image file is truncated''), ?w')"
    by (simp add: process_one_body_def io_defs default_config_sel legacy_console_sel
        sample_system_sel sample_paths parent_def)
  have one: "process_one default_config legacy_console_system [''images'', ''bad.jpg''] ?w =
      (Inl UnicodeEncodeError, ?w')"
    by (simp add: process_one_eq body legacy_console_sel)
  have wf: "walked_files default_config legacy_console_system =
       [[''images'', ''bad.jpg''], [''images'', ''half.JPG''], [''images'', ''empty.jpeg''],
        [''images'', ''notes.gif''], [''images'', ''b'', ''wide.jpg'']]"
    by (simp add: walked_files_def legacy_console_sel sample_system_sel default_config_sel)
  have ed: "ensure_dirs default_config legacy_console_system empty_world = (Inr (), ?w)"
    by (simp add: ensure_dirs_def io_defs legacy_console_sel sample_system_sel
        default_config_sel THUMB_DIR_def empty_world_def)
  have "main default_config legacy_console_system empty_world = (Inl UnicodeEncodeError, ?w')"
    by (simp add: main_def io_bind_def ed legacy_console_sel sample_system_sel
        default_config_sel one)
  with body one wf show ?thesis by simp
qed

lemma run_wide_files:
  "new_files empty_world
     (snd (process_one default_config sample_system [''images'', ''b'', ''wide.jpg''] empty_world)) =
   [([''images_optimized'', ''b'', ''wide.jpg''],
     jpeg_file \<lparr>mode = ''RGB'', isize = (1600, 533), pixels = [], info = []\<rparr> 85),
    ([''images_optimized'', ''thumbs'', ''b'', ''wide.jpg''],
     jpeg_file \<lparr>mode = ''RGB'', isize = (400, 133), pixels = [], info = []\<rparr> 70),
    ([''images_optimized'', ''b'', ''wide.webp''],
     webp_file \<lparr>mode = ''RGB'', isize = (1600, 533), pixels = [], info = []\<rparr> 80)]"
  by (simp add: run_wide new_files_def empty_world_def)

text \<open>
  The photograph of 3000 by 1000 pixels of the sample tree is written 1600 by 533 and
  400 by 133; an image 320 pixels wide is returned unchanged for the target 400.
\<close>

theorem widths_capped_witness:
  "image_open sample_system [''images'', ''b'', ''wide.jpg''] = Inr (blank_image ''RGB'' 3000 1000)
   \<and> out_paths default_config [''images'', ''b'', ''wide.jpg''] =
       Inr ([''images_optimized'', ''b'', ''wide.jpg''], [''images_optimized'', ''b'', ''wide.webp''],
            [''images_optimized'', ''thumbs'', ''b'', ''wide.jpg''])
   \<and> ([''images_optimized'', ''b'', ''wide.jpg''],
        jpeg_file \<lparr>mode = ''RGB'', isize = (1600, 533), pixels = [], info = []\<rparr> 85)
       \<in> set (new_files empty_world
            (snd (process_one default_config sample_system [''images'', ''b'', ''wide.jpg'']
                    empty_world)))
   \<and> ([''images_optimized'', ''thumbs'', ''b'', ''wide.jpg''],
        jpeg_file \<lparr>mode = ''RGB'', isize = (400, 133), pixels = [], info = []\<rparr> 70)
       \<in> set (new_files empty_world
            (snd (process_one default_config sample_system [''images'', ''b'', ''wide.jpg'']
                    empty_world)))
   \<and> int (fst (isize (a_image
        (jpeg_file \<lparr>mode = ''RGB'', isize = (1600, 533), pixels = ([]::nat list), info = []\<rparr> 85))))
       \<le> MAX_WIDTH_HI default_config
   \<and> int (fst (isize (a_image
        (jpeg_file \<lparr>mode = ''RGB'', isize = (400, 133), pixels = ([]::nat list), info = []\<rparr> 70))))
       \<le> THUMB_WIDTH default_config
   \<and> int (fst (isize (blank_image ''L'' 320 200))) \<le> 400
   \<and> resize_by_width plain_lib (blank_image ''L'' 320 200) 400 = Inr (blank_image ''L'' 320 200)"
proof -
  let ?src = "[''images'', ''b'', ''wide.jpg'']"
  let ?X = "process_one default_config sample_system ?src empty_world"
  have run: "?X = (fst ?X, snd ?X)" by simp
  have op: "image_open sample_system ?src = Inr (blank_image ''RGB'' 3000 1000)"
    by (simp add: sample_system_sel)
  note th = widths_capped[OF run op sample_paths(8),
      where img = "blank_image ''L'' 320 200" and t = 400 and l = plain_lib]
  have w: "int (fst (isize (blank_image ''L'' 320 200))) \<le> 400" by (simp add: blank_image_def)
  from th w op sample_paths(8) show ?thesis
    unfolding run_wide_files by simp
qed

text \<open>The WebP file of the sample photograph holds its hi-res image of 1600 by 533.\<close>

theorem webp_from_hi_res_only_witness:
  "MAKE_WEBP default_config
   \<and> ([''images_optimized'', ''b'', ''wide.webp''],
        webp_file \<lparr>mode = ''RGB'', isize = (1600, 533), pixels = [], info = []\<rparr> 80)
       \<in> set (new_files empty_world
            (snd (process_one default_config sample_system [''images'', ''b'', ''wide.jpg'']
                    empty_world)))
   \<and> (\<exists>out_hi out_thumb hi.
          out_paths default_config [''images'', ''b'', ''wide.jpg''] =
            Inr (out_hi, [''images_optimized'', ''b'', ''wide.webp''], out_thumb)
        \<and> webp_file \<lparr>mode = ''RGB'', isize = (1600, 533), pixels = [], info = []\<rparr> 80 =
            webp_file hi (WEBP_QUALITY default_config)
        \<and> (out_hi, jpeg_file hi (JPEG_QUALITY default_config))
            \<in> set (new_files empty_world
                 (snd (process_one default_config sample_system [''images'', ''b'', ''wide.jpg'']
                         empty_world))))
   \<and> length (filter (\<lambda>(p, a). a_format a = WEBP)
        (new_files empty_world
           (snd (process_one default_config sample_system [''images'', ''b'', ''wide.jpg'']
                   empty_world)))) \<le> 1"
proof -
  let ?src = "[''images'', ''b'', ''wide.jpg'']"
  let ?X = "process_one default_config sample_system ?src empty_world"
  have run: "?X = (fst ?X, snd ?X)" by simp
  note th = webp_from_hi_res_only[OF run]
  have m: "([''images_optimized'', ''b'', ''wide.webp''],
        webp_file \<lparr>mode = ''RGB'', isize = (1600, 533), pixels = [], info = []\<rparr> 80)
       \<in> set (new_files empty_world (snd ?X))
       \<and> a_format (webp_file \<lparr>mode = ''RGB'', isize = (1600, 533), pixels = ([]::nat list), info = []\<rparr> 80) = WEBP"
    unfolding run_wide_files by (simp add: webp_file_def)
  from th m show ?thesis by (simp add: default_config_sel)
qed

section \<open>Properties of the output paths and of strip_exif\<close>

lemma with_suffix_eq:
  assumes "CHR ''/'' \<notin> set sfx" "sfx = [] \<or> hd sfx = CHR ''.''" "sfx \<noteq> ''.''"
  shows "with_suffix p sfx =
           (if path_name p = [] then Inl ValueError else Inr (butlast p @ [stem p @ sfx]))"
  using assms by (auto simp: with_suffix_def stem_def Let_def)

lemma suffix_length: "length (suffix p) \<le> length (path_name p)"
  by (simp add: suffix_def Let_def)

lemma path_decomp:
  assumes "path_name p \<noteq> []"
  shows "p = butlast p @ [stem p @ suffix p]"
proof -
  have p: "p \<noteq> []" using assms by (auto simp: path_name_def)
  have "stem p @ suffix p = path_name p"
    by (auto simp: stem_def suffix_def Let_def)
  then show ?thesis using p by (simp add: path_name_def)
qed

lemma relative_to_eq: "relative_to p other = Inr rel \<Longrightarrow> p = other @ rel"
  by (auto simp: relative_to_def split: if_splits) (metis append_take_drop_id)

lemma out_paths_eq:
  assumes "out_paths cfg src = Inr (oh, ow, ot)"
  obtains rel where "src = SRC_DIR cfg @ rel" "path_name rel \<noteq> []"
    "oh = OUT_DIR cfg @ butlast rel @ [stem rel @ ''.jpg'']"
    "ow = OUT_DIR cfg @ butlast rel @ [stem rel @ ''.webp'']"
    "ot = OUT_DIR cfg @ [''thumbs''] @ butlast rel @ [stem rel @ ''.jpg'']"
proof -
  obtain rel where rel: "relative_to src (SRC_DIR cfg) = Inr rel"
    using assms by (cases "relative_to src (SRC_DIR cfg)") (simp_all add: out_paths_def bind_err_def)
  have j: "with_suffix rel ''.jpg'' =
       (if path_name rel = [] then Inl ValueError else Inr (butlast rel @ [stem rel @ ''.jpg'']))"
    by (rule with_suffix_eq) simp_all
  have w: "with_suffix rel ''.webp'' =
       (if path_name rel = [] then Inl ValueError else Inr (butlast rel @ [stem rel @ ''.webp'']))"
    by (rule with_suffix_eq) simp_all
  have n: "path_name rel \<noteq> []"
    using assms rel j by (auto simp: out_paths_def bind_err_def)
  show thesis
    using assms rel n relative_to_eq[OF rel]
    by (intro that[of rel]) (simp_all add: out_paths_def bind_err_def j w THUMB_DIR_def)
qed

lemma suffix_append: "rel \<noteq> [] \<Longrightarrow> suffix (base @ rel) = suffix rel"
  by (simp add: suffix_def path_name_def)

text \<open>
  Claim C6, as the code has it. The three output paths of a source depend only on the output
  root and on the path \<open>rel\<close> of the source relative to the input root: the hi-res path
  is \<open>OUT_DIR / rel\<close> with the suffix replaced by \<open>.jpg\<close>, the alternate path the same
  with \<open>.webp\<close>, the thumbnail path \<open>OUT_DIR / thumbs / rel\<close> with \<open>.jpg\<close>. Two
  sources whose outputs of one kind coincide have relative paths with the same parent and
  the same stem: they differ in the suffix only. Nothing is said across kinds.
\<close>

theorem output_paths_determined:
  assumes "out_paths cfg s1 = Inr (h1, w1, t1)" and "out_paths cfg s2 = Inr (h2, w2, t2)"
  shows "\<exists>rel1 rel2.
      s1 = SRC_DIR cfg @ rel1 \<and> s2 = SRC_DIR cfg @ rel2
    \<and> rel1 = butlast rel1 @ [stem rel1 @ suffix s1]
    \<and> rel2 = butlast rel2 @ [stem rel2 @ suffix s2]
    \<and> h1 = OUT_DIR cfg @ butlast rel1 @ [stem rel1 @ ''.jpg'']
    \<and> w1 = OUT_DIR cfg @ butlast rel1 @ [stem rel1 @ ''.webp'']
    \<and> t1 = OUT_DIR cfg @ [''thumbs''] @ butlast rel1 @ [stem rel1 @ ''.jpg'']
    \<and> h2 = OUT_DIR cfg @ butlast rel2 @ [stem rel2 @ ''.jpg'']
    \<and> w2 = OUT_DIR cfg @ butlast rel2 @ [stem rel2 @ ''.webp'']
    \<and> t2 = OUT_DIR cfg @ [''thumbs''] @ butlast rel2 @ [stem rel2 @ ''.jpg'']
    \<and> (h1 = h2 \<or> w1 = w2 \<or> t1 = t2 \<longrightarrow> butlast rel1 = butlast rel2 \<and> stem rel1 = stem rel2)"
proof -
  from assms(1) obtain rel1 where 1: "s1 = SRC_DIR cfg @ rel1" "path_name rel1 \<noteq> []"
    "h1 = OUT_DIR cfg @ butlast rel1 @ [stem rel1 @ ''.jpg'']"
    "w1 = OUT_DIR cfg @ butlast rel1 @ [stem rel1 @ ''.webp'']"
    "t1 = OUT_DIR cfg @ [''thumbs''] @ butlast rel1 @ [stem rel1 @ ''.jpg'']"
    by (rule out_paths_eq)
  from assms(2) obtain rel2 where 2: "s2 = SRC_DIR cfg @ rel2" "path_name rel2 \<noteq> []"
    "h2 = OUT_DIR cfg @ butlast rel2 @ [stem rel2 @ ''.jpg'']"
    "w2 = OUT_DIR cfg @ butlast rel2 @ [stem rel2 @ ''.webp'']"
    "t2 = OUT_DIR cfg @ [''thumbs''] @ butlast rel2 @ [stem rel2 @ ''.jpg'']"
    by (rule out_paths_eq)
  have ne: "rel1 \<noteq> []" "rel2 \<noteq> []" using 1(2) 2(2) by (auto simp: path_name_def)
  have d1: "rel1 = butlast rel1 @ [stem rel1 @ suffix s1]"
    using path_decomp[OF 1(2)] ne by (simp add: 1(1) suffix_append)
  have d2: "rel2 = butlast rel2 @ [stem rel2 @ suffix s2]"
    using path_decomp[OF 2(2)] ne by (simp add: 2(1) suffix_append)
  have inj: "h1 = h2 \<or> w1 = w2 \<or> t1 = t2 \<longrightarrow> butlast rel1 = butlast rel2 \<and> stem rel1 = stem rel2"
    unfolding 1 2 by auto
  show ?thesis
    using 1(1,3,4,5) 2(1,3,4,5) d1 d2 inj by blast
qed

text \<open>\<open>a/cat.png\<close> and \<open>a/cat.JPG\<close> share all three output paths.\<close>

theorem output_paths_determined_witness:
  "out_paths default_config [''images'', ''a'', ''cat.png''] =
     Inr ([''images_optimized'', ''a'', ''cat.jpg''], [''images_optimized'', ''a'', ''cat.webp''],
          [''images_optimized'', ''thumbs'', ''a'', ''cat.jpg''])
   \<and> out_paths default_config [''images'', ''a'', ''cat.JPG''] =
     Inr ([''images_optimized'', ''a'', ''cat.jpg''], [''images_optimized'', ''a'', ''cat.webp''],
          [''images_optimized'', ''thumbs'', ''a'', ''cat.jpg''])
   \<and> butlast [''a'', ''cat.png''] = butlast [''a'', ''cat.JPG'']
   \<and> stem [''a'', ''cat.png''] = stem [''a'', ''cat.JPG'']"
proof -
  have 1: "out_paths default_config [''images'', ''a'', ''cat.png''] =
     Inr ([''images_optimized'', ''a'', ''cat.jpg''], [''images_optimized'', ''a'', ''cat.webp''],
          [''images_optimized'', ''thumbs'', ''a'', ''cat.jpg''])"
    by code_simp
  have 2: "out_paths default_config [''images'', ''a'', ''cat.JPG''] =
     Inr ([''images_optimized'', ''a'', ''cat.jpg''], [''images_optimized'', ''a'', ''cat.webp''],
          [''images_optimized'', ''thumbs'', ''a'', ''cat.jpg''])"
    by code_simp
  from output_paths_determined[OF 1 2]
  obtain rel1 rel2 where r: "[''images'', ''a'', ''cat.png''] = SRC_DIR default_config @ rel1"
    "[''images'', ''a'', ''cat.JPG''] = SRC_DIR default_config @ rel2"
    "butlast rel1 = butlast rel2 \<and> stem rel1 = stem rel2"
    by auto
  from r(1,2) have "rel1 = [''a'', ''cat.png'']" "rel2 = [''a'', ''cat.JPG'']"
    by (simp_all add: default_config_sel)
  with r(3) 1 2 show ?thesis by simp
qed

text \<open>
  Claim C6 as the specification states it excludes every collision between sources whose
  relative paths differ in more than the suffix. The thumbnail directory lies inside the
  output root, so the hi-res path of \<open>thumbs/x.png\<close> is the thumbnail path of
  \<open>x.jpg\<close>, two accepted sources.
\<close>

theorem output_paths_collide_counterexample:
  "out_paths default_config [''images'', ''thumbs'', ''x.png''] =
     Inr ([''images_optimized'', ''thumbs'', ''x.jpg''],
          [''images_optimized'', ''thumbs'', ''x.webp''],
          [''images_optimized'', ''thumbs'', ''thumbs'', ''x.jpg''])
   \<and> out_paths default_config [''images'', ''x.jpg''] =
     Inr ([''images_optimized'', ''x.jpg''], [''images_optimized'', ''x.webp''],
          [''images_optimized'', ''thumbs'', ''x.jpg''])
   \<and> lower (suffix [''images'', ''thumbs'', ''x.png'']) \<in> set SUPPORTED
   \<and> lower (suffix [''images'', ''x.jpg'']) \<in> set SUPPORTED
   \<and> butlast [''thumbs'', ''x.png''] \<noteq> butlast [''x.jpg'']"
  by code_simp

lemma strip_exif_props:
  assumes "strip_exif l img = Inr out"
  shows "mode out = (if mode img = ''RGBA'' then ''RGBA'' else ''RGB'')"
    and "isize out = isize img" and "info out = []"
    and "if mode img \<in> set [''RGB'', ''RGBA''] then pixels out = pixels img
         else convert_data l (mode img) ''RGB'' (pixels img) = Inr (pixels out)"
  using assms
  by (auto simp: strip_exif_def convert_def new_image_def bind_err_def Let_def
      split: if_splits sum.splits)

text \<open>
  Claim C8, as the code has it. With \<open>STRIP_EXIF\<close> on, the normalised image keeps the
  mode of a source in mode RGB or RGBA and is in mode RGB for every other source; it has
  the size of the source, an empty \<open>info\<close>, and the raster of the source (converted to
  RGB when the mode changed). So the result is in the 4-channel mode exactly when the
  source was already in mode RGBA.
\<close>

theorem strip_exif_modes:
  assumes "STRIP_EXIF cfg" and "normalize cfg l img = Inr out"
  shows "mode out = (if mode img = ''RGBA'' then ''RGBA'' else ''RGB'')
    \<and> isize out = isize img \<and> info out = []
    \<and> (if mode img \<in> set [''RGB'', ''RGBA''] then pixels out = pixels img
        else convert_data l (mode img) ''RGB'' (pixels img) = Inr (pixels out))"
proof -
  have "strip_exif l img = Inr out" using assms by (simp add: normalize_def)
  from strip_exif_props[OF this] show ?thesis by simp
qed

text \<open>A grey image with an alpha channel (mode LA) that carries an orientation tag.\<close>

theorem strip_exif_modes_witness:
  "STRIP_EXIF default_config
   \<and> normalize default_config plain_lib (blank_image ''LA'' 2 2) =
       Inr \<lparr>mode = ''RGB'', isize = (2, 2), pixels = [], info = []\<rparr>
   \<and> mode (blank_image ''LA'' 2 2) \<noteq> ''RGBA''
   \<and> info (blank_image ''LA'' 2 2) = [(''exif'', ''Orientation=6'')]"
proof -
  have n: "normalize default_config plain_lib (blank_image ''LA'' 2 2) =
       Inr \<lparr>mode = ''RGB'', isize = (2, 2), pixels = [], info = []\<rparr>"
    by (simp add: normalize_def default_config_sel strip_exif_def convert_def new_image_def
        bind_err_def plain_lib_def blank_image_def)
  from strip_exif_modes[OF default_config_sel(8) n] n show ?thesis
    by (simp add: default_config_sel blank_image_def)
qed

text \<open>
  Claim C8 as the specification states it sends every source with transparency to the
  4-channel mode. A source in mode LA has transparency and ends in mode RGB.
\<close>

theorem strip_exif_transparency_counterexample:
  "STRIP_EXIF default_config
   \<and> has_transparency (blank_image ''LA'' 2 2)
   \<and> map_sum id mode (normalize default_config plain_lib (blank_image ''LA'' 2 2)) = Inr ''RGB''"
  by (simp add: normalize_def default_config_sel strip_exif_def convert_def new_image_def
        bind_err_def plain_lib_def blank_image_def has_transparency_def)

end
